theory Spec2Isabelle
  imports Main "HOL-Library.Word"
begin

unbundle bit_operations_syntax

section \<open>Errors\<close>

text \<open>
  Every \<^verbatim>\<open>throw runtime_error(...)\<close> of \<^verbatim>\<open>main.cpp\<close> is one constructor, named after
  the place that throws. The last two constructors are not exceptions: they stand for the
  undefined behaviour of dereferencing a null \<^verbatim>\<open>shared_ptr\<close> and of indexing the array of a
  \<^verbatim>\<open>Matrix\<close> past its end. A function that can fail returns \<open>error + 'a\<close>, \<open>Inl\<close> the error.
\<close>

datatype error =
    Usage
  | InvalidCellSize
  | EncodedSizeOnUndefined
  | MeanTypeOnUndefined
  | MergeOnNonLeaf
  | MergeWithNullSibbling
  | MergedToInvalidType
  | GetLeavesOnUndefined
  | HopelesslyComplex
  | NullDereference
  | OutOfBounds

fun what :: "error \<Rightarrow> string" where
  "what Usage = ''Usage: png2tweet filename.png [cell size]''"
| "what InvalidCellSize = ''invalid cell size''"
| "what EncodedSizeOnUndefined = ''encoded_size() on undefined tree''"
| "what MeanTypeOnUndefined = ''mean_type() on undefined tree''"
| "what MergeOnNonLeaf = ''merge_with_sibblings() on non-leaf''"
| "what MergeWithNullSibbling = ''merge_with_sibblings() with null sibbling''"
| "what MergedToInvalidType = ''merge_with_sibblings() merged to invalid type''"
| "what GetLeavesOnUndefined = ''get_leaves() on undefined tree''"
| "what HopelesslyComplex = ''image is hopelessly complex; try a smaller cell size''"
| "what NullDereference = []"
| "what OutOfBounds = []"

fun is_exception :: "error \<Rightarrow> bool" where
  "is_exception NullDereference = False"
| "is_exception OutOfBounds = False"
| "is_exception e = True"

section \<open>Matrix\<close>

text \<open>
  \<^verbatim>\<open>Matrix<T>\<close>: \<^verbatim>\<open>width\<close>, \<^verbatim>\<open>height\<close> and the array \<^verbatim>\<open>data\<close> of \<^verbatim>\<open>width * height\<close> cells,
  row after row. \<^verbatim>\<open>operator()(x, y)\<close> is \<^verbatim>\<open>data[y * width + x]\<close> with no check of \<^verbatim>\<open>x\<close> or
  \<^verbatim>\<open>y\<close>: an index inside the array reads or writes that cell whatever \<^verbatim>\<open>x\<close> is, an index
  past the array is \<open>OutOfBounds\<close>. \<^verbatim>\<open>size_t\<close> coordinates are \<open>nat\<close>.
\<close>

record 'a Matrix =
  width :: nat
  height :: nat
  data :: "'a list"

definition Matrix_new :: "nat \<Rightarrow> nat \<Rightarrow> ('a::zero) Matrix" where
  "Matrix_new w h = \<lparr>width = w, height = h, data = replicate (w * h) 0\<rparr>"

definition get_width :: "'a Matrix \<Rightarrow> nat" where
  "get_width m = width m"

definition get_height :: "'a Matrix \<Rightarrow> nat" where
  "get_height m = height m"

definition Matrix_at :: "'a Matrix \<Rightarrow> nat \<Rightarrow> nat \<Rightarrow> error + 'a" where
  "Matrix_at m x y =
     (if y * width m + x < length (data m) then Inr (data m ! (y * width m + x))
      else Inl OutOfBounds)"

definition Matrix_put :: "'a Matrix \<Rightarrow> nat \<Rightarrow> nat \<Rightarrow> 'a \<Rightarrow> error + 'a Matrix" where
  "Matrix_put m x y v =
     (if y * width m + x < length (data m)
      then Inr (m\<lparr>data := (data m)[y * width m + x := v]\<rparr>)
      else Inl OutOfBounds)"

section \<open>make_square\<close>

text \<open>
  \<^verbatim>\<open>next_greater_power_of_2\<close> is instantiated at \<^verbatim>\<open>size_t\<close>, 64 bits wide: \<^verbatim>\<open>--n\<close> and
  \<^verbatim>\<open>n + 1\<close> wrap around.
\<close>

type_synonym size_t = "64 word"

definition next_greater_power_of_2 :: "size_t \<Rightarrow> size_t" where
  "next_greater_power_of_2 n0 =
     (let n = n0 - 1;
          n = n OR drop_bit 1 n;
          n = n OR drop_bit 2 n;
          n = n OR drop_bit 4 n;
          n = n OR drop_bit 8 n;
          n = n OR drop_bit 16 n
      in n + 1)"

text \<open>
  The two loops of \<^verbatim>\<open>make_square\<close>. Their bounds are the local \<^verbatim>\<open>width\<close> and \<^verbatim>\<open>height\<close>, the
  rounded sizes, and each pass reads \<^verbatim>\<open>input(x, y)\<close> and writes
  \<^verbatim>\<open>output(x * size / width, y * size / height)\<close>. The matrix is returned as it was
  built: the return value is taken to be constructed in place, without a call of the move
  constructor.
\<close>

fun make_square_row ::
  "'a Matrix \<Rightarrow> nat \<Rightarrow> nat \<Rightarrow> nat \<Rightarrow> nat \<Rightarrow> nat list \<Rightarrow> 'a Matrix \<Rightarrow> error + 'a Matrix" where
  "make_square_row input w h sz y [] output = Inr output"
| "make_square_row input w h sz y (x # xs) output =
     (case Matrix_at input x y of
        Inl e \<Rightarrow> Inl e
      | Inr v \<Rightarrow>
          (case Matrix_put output (x * sz div w) (y * sz div h) v of
             Inl e \<Rightarrow> Inl e
           | Inr output' \<Rightarrow> make_square_row input w h sz y xs output'))"

fun make_square_rows ::
  "'a Matrix \<Rightarrow> nat \<Rightarrow> nat \<Rightarrow> nat \<Rightarrow> nat list \<Rightarrow> 'a Matrix \<Rightarrow> error + 'a Matrix" where
  "make_square_rows input w h sz [] output = Inr output"
| "make_square_rows input w h sz (y # ys) output =
     (case make_square_row input w h sz y [0..<w] output of
        Inl e \<Rightarrow> Inl e
      | Inr output' \<Rightarrow> make_square_rows input w h sz ys output')"

definition make_square :: "('a::zero) Matrix \<Rightarrow> error + 'a Matrix" where
  "make_square input =
     (let w = unat (next_greater_power_of_2 (of_nat (get_width input)));
          h = unat (next_greater_power_of_2 (of_nat (get_height input)));
          sz = max w h
      in make_square_rows input w h sz [0..<h] (Matrix_new sz sz))"

section \<open>QuadTree\<close>

datatype Type = UNDEFINED_TREE | BLACK_TREE | GREY_TREE | WHITE_TREE | SPLIT_TREE

fun int_of_Type :: "Type \<Rightarrow> int" where
  "int_of_Type UNDEFINED_TREE = -1"
| "int_of_Type BLACK_TREE = 0"
| "int_of_Type GREY_TREE = 1"
| "int_of_Type WHITE_TREE = 2"
| "int_of_Type SPLIT_TREE = 3"

text \<open>
  \<^verbatim>\<open>static_cast<Type>\<close> of an \<^verbatim>\<open>int\<close>. The source casts only averages of values from 0 to 2;
  any other integer is given \<open>UNDEFINED_TREE\<close>.
\<close>

definition Type_of_int :: "int \<Rightarrow> Type" where
  "Type_of_int i =
     (if i = 0 then BLACK_TREE else if i = 1 then GREY_TREE else if i = 2 then WHITE_TREE
      else if i = 3 then SPLIT_TREE else UNDEFINED_TREE)"

text \<open>The division of C++ on \<^verbatim>\<open>int\<close> truncates towards zero.\<close>

definition cdiv :: "int \<Rightarrow> int \<Rightarrow> int" where
  "cdiv a b = (if (a < 0) = (b < 0) then \<bar>a\<bar> div \<bar>b\<bar> else - (\<bar>a\<bar> div \<bar>b\<bar>))"

text \<open>
  A node holds \<^verbatim>\<open>type\<close> and \<^verbatim>\<open>children[4]\<close>. \<^verbatim>\<open>init\<close> either leaves the four pointers null
  or sets all four, and nothing assigns them afterwards: \<open>Childless\<close> is a node whose four
  pointers are null, \<open>Parent\<close> a node that owns four nodes, in the order of \<^verbatim>\<open>children\<close>. The
  type is stored in both, since \<^verbatim>\<open>merge_leaves\<close> and \<^verbatim>\<open>merge_with_sibblings\<close> overwrite
  \<^verbatim>\<open>type\<close> and leave \<^verbatim>\<open>children\<close> alone.

  The tree owns its nodes without sharing and its pointers never change, so a node is named
  by the path of child indexes that leads to it from the root. The \<^verbatim>\<open>parent\<close> pointer of the
  node at \<open>p @ [i]\<close> is the node at \<open>p\<close> (both constructors pass \<^verbatim>\<open>this\<close> to \<^verbatim>\<open>init\<close>, which
  hands it to the children it creates), and the root's is null.
\<close>

datatype QuadTree =
    Childless Type
  | Parent Type QuadTree QuadTree QuadTree QuadTree

fun type :: "QuadTree \<Rightarrow> Type" where
  "type (Childless ty) = ty"
| "type (Parent ty c0 c1 c2 c3) = ty"

text \<open>
  \<^verbatim>\<open>init\<close>, with \<^verbatim>\<open>minimum_cell_size\<close> (a static variable that \<^verbatim>\<open>main\<close> may set) as the
  first argument. The matrix of \<^verbatim>\<open>main\<close> holds \<^verbatim>\<open>uint8_t\<close>, promoted to \<^verbatim>\<open>int\<close> by the
  comparisons.
\<close>

function init :: "nat \<Rightarrow> 8 word Matrix \<Rightarrow> nat \<Rightarrow> nat \<Rightarrow> nat \<Rightarrow> error + QuadTree" where
  "init minimum_cell_size matrix x y sz =
     (if sz \<le> minimum_cell_size then
        (case Matrix_at matrix x y of
           Inl e \<Rightarrow> Inl e
         | Inr v \<Rightarrow>
             Inr (Childless
               (if uint v < 255 * 1 div 5 then BLACK_TREE
                else if uint v < 255 * 3 div 5 then GREY_TREE
                else WHITE_TREE)))
      else
        (let half = sz div 2 in
         case init minimum_cell_size matrix x y half of
           Inl e \<Rightarrow> Inl e
         | Inr c0 \<Rightarrow>
         (case init minimum_cell_size matrix (x + half) y half of
           Inl e \<Rightarrow> Inl e
         | Inr c1 \<Rightarrow>
         (case init minimum_cell_size matrix x (y + half) half of
           Inl e \<Rightarrow> Inl e
         | Inr c2 \<Rightarrow>
         (case init minimum_cell_size matrix (x + half) (y + half) half of
           Inl e \<Rightarrow> Inl e
         | Inr c3 \<Rightarrow> Inr (Parent SPLIT_TREE c0 c1 c2 c3))))))"
  by pat_completeness auto
termination
  by (relation "measure (\<lambda>(m, matrix, x, y, sz). sz)") auto

declare init.simps [simp del]

text \<open>The public constructor: the whole matrix, from the origin, \<^verbatim>\<open>get_width\<close> wide.\<close>

definition QuadTree_new :: "nat \<Rightarrow> 8 word Matrix \<Rightarrow> error + QuadTree" where
  "QuadTree_new minimum_cell_size matrix =
     init minimum_cell_size matrix 0 0 (get_width matrix)"

text \<open>
  \<^verbatim>\<open>encoded_size\<close>. The undefined type throws, a leaf type costs 2 whatever the node holds
  below it, and a split node adds up its children, skipping null pointers.
\<close>

fun encoded_size :: "QuadTree \<Rightarrow> error + nat" where
  "encoded_size (Childless ty) =
     (case ty of
        UNDEFINED_TREE \<Rightarrow> Inl EncodedSizeOnUndefined
      | SPLIT_TREE \<Rightarrow> Inr 0
      | _ \<Rightarrow> Inr 2)"
| "encoded_size (Parent ty c0 c1 c2 c3) =
     (case ty of
        UNDEFINED_TREE \<Rightarrow> Inl EncodedSizeOnUndefined
      | SPLIT_TREE \<Rightarrow>
          (case encoded_size c0 of Inl e \<Rightarrow> Inl e | Inr n0 \<Rightarrow>
          (case encoded_size c1 of Inl e \<Rightarrow> Inl e | Inr n1 \<Rightarrow>
          (case encoded_size c2 of Inl e \<Rightarrow> Inl e | Inr n2 \<Rightarrow>
          (case encoded_size c3 of Inl e \<Rightarrow> Inl e | Inr n3 \<Rightarrow>
             Inr (0 + n0 + n1 + n2 + n3)))))
      | _ \<Rightarrow> Inr 2)"

text \<open>
  \<^verbatim>\<open>merge_leaves\<close>. A node that is not split returns at once. A split node calls its four
  children (a null child is dereferenced), collects their types, sorts them by their
  integer values, drops adjacent repetitions (\<open>sorted_unique\<close>), and takes the single type
  left unless that type is split. Only \<^verbatim>\<open>type\<close> is assigned.
\<close>

definition sorted_unique :: "Type list \<Rightarrow> int list" where
  "sorted_unique types = remdups_adj (sort (map int_of_Type types))"

fun merge_leaves :: "QuadTree \<Rightarrow> error + QuadTree" where
  "merge_leaves (Childless ty) =
     (if ty \<noteq> SPLIT_TREE then Inr (Childless ty) else Inl NullDereference)"
| "merge_leaves (Parent ty c0 c1 c2 c3) =
     (if ty \<noteq> SPLIT_TREE then Inr (Parent ty c0 c1 c2 c3)
      else
        (case merge_leaves c0 of Inl e \<Rightarrow> Inl e | Inr d0 \<Rightarrow>
        (case merge_leaves c1 of Inl e \<Rightarrow> Inl e | Inr d1 \<Rightarrow>
        (case merge_leaves c2 of Inl e \<Rightarrow> Inl e | Inr d2 \<Rightarrow>
        (case merge_leaves c3 of Inl e \<Rightarrow> Inl e | Inr d3 \<Rightarrow>
           (let types = sorted_unique [type d0, type d1, type d2, type d3]
            in if length types \<noteq> 1 \<or> types ! 0 = int_of_Type SPLIT_TREE
               then Inr (Parent ty d0 d1 d2 d3)
               else Inr (Parent (Type_of_int (types ! 0)) d0 d1 d2 d3)))))))"

text \<open>
  \<^verbatim>\<open>mean_type\<close>. A split node dereferences its four children and casts the truncated
  average of their results. The operands are taken from left to right.
\<close>

fun mean_type :: "QuadTree \<Rightarrow> error + Type" where
  "mean_type (Childless ty) =
     (case ty of
        UNDEFINED_TREE \<Rightarrow> Inl MeanTypeOnUndefined
      | SPLIT_TREE \<Rightarrow> Inl NullDereference
      | _ \<Rightarrow> Inr ty)"
| "mean_type (Parent ty c0 c1 c2 c3) =
     (case ty of
        UNDEFINED_TREE \<Rightarrow> Inl MeanTypeOnUndefined
      | SPLIT_TREE \<Rightarrow>
          (case mean_type c0 of Inl e \<Rightarrow> Inl e | Inr t0 \<Rightarrow>
          (case mean_type c1 of Inl e \<Rightarrow> Inl e | Inr t1 \<Rightarrow>
          (case mean_type c2 of Inl e \<Rightarrow> Inl e | Inr t2 \<Rightarrow>
          (case mean_type c3 of Inl e \<Rightarrow> Inl e | Inr t3 \<Rightarrow>
             Inr (Type_of_int
               (cdiv (int_of_Type t0 + int_of_Type t1 + int_of_Type t2 + int_of_Type t3) 4))))))
      | _ \<Rightarrow> Inr ty)"

subsection \<open>Nodes by path\<close>

text \<open>
  \<open>lookup\<close> follows child indexes from a node; \<open>None\<close> is a null pointer on the way.
  \<open>set_type\<close> assigns \<^verbatim>\<open>type\<close> of the node at a path and nothing else.
\<close>

fun child :: "QuadTree \<Rightarrow> nat \<Rightarrow> QuadTree option" where
  "child (Childless ty) i = None"
| "child (Parent ty c0 c1 c2 c3) i =
     (if i = 0 then Some c0 else if i = 1 then Some c1 else if i = 2 then Some c2
      else if i = 3 then Some c3 else None)"

fun lookup :: "QuadTree \<Rightarrow> nat list \<Rightarrow> QuadTree option" where
  "lookup t [] = Some t"
| "lookup t (i # p) = (case child t i of None \<Rightarrow> None | Some c \<Rightarrow> lookup c p)"

fun set_type :: "QuadTree \<Rightarrow> nat list \<Rightarrow> Type \<Rightarrow> QuadTree" where
  "set_type (Childless ty) [] new = Childless new"
| "set_type (Parent ty c0 c1 c2 c3) [] new = Parent new c0 c1 c2 c3"
| "set_type (Childless ty) (i # p) new = Childless ty"
| "set_type (Parent ty c0 c1 c2 c3) (i # p) new =
     (if i = 0 then Parent ty (set_type c0 p new) c1 c2 c3
      else if i = 1 then Parent ty c0 (set_type c1 p new) c2 c3
      else if i = 2 then Parent ty c0 c1 (set_type c2 p new) c3
      else if i = 3 then Parent ty c0 c1 c2 (set_type c3 p new)
      else Parent ty c0 c1 c2 c3)"

subsection \<open>merge_with_sibblings\<close>

text \<open>
  The loop over the four children of the parent: the types collected so far, and the count
  of split siblings. \<open>Inr None\<close> is \<^verbatim>\<open>return false\<close>.
\<close>

fun sibbling_types :: "QuadTree list \<Rightarrow> nat \<Rightarrow> nat \<Rightarrow> int list \<Rightarrow> error + int list option" where
  "sibbling_types [] maximum_detail_loss sibbling_splits types = Inr (Some types)"
| "sibbling_types (sibbling # rest) maximum_detail_loss sibbling_splits types =
     (if type sibbling = SPLIT_TREE then
        (if sibbling_splits + 1 > maximum_detail_loss then Inr None
         else
           (case mean_type sibbling of
              Inl e \<Rightarrow> Inl e
            | Inr ty \<Rightarrow>
                sibbling_types rest maximum_detail_loss (sibbling_splits + 1)
                  (types @ [int_of_Type ty])))
      else
        sibbling_types rest maximum_detail_loss sibbling_splits
          (types @ [int_of_Type (type sibbling)]))"

text \<open>
  \<^verbatim>\<open>merge_with_sibblings(tree, maximum_detail_loss)\<close> on the root \<open>root\<close>, for the node at
  path \<open>p\<close>. The result is the returned flag and the tree afterwards. A path that reaches
  no node is a null \<^verbatim>\<open>tree\<close>. The parent of a node with a non-empty path owns four nodes, so
  the test for a null sibling has no case here.
\<close>

definition merge_with_sibblings ::
  "QuadTree \<Rightarrow> nat list \<Rightarrow> nat \<Rightarrow> error + (bool \<times> QuadTree)" where
  "merge_with_sibblings root p maximum_detail_loss =
     (case lookup root p of
        None \<Rightarrow> Inl NullDereference
      | Some tree \<Rightarrow>
          if type tree = SPLIT_TREE \<or> p = [] then Inl MergeOnNonLeaf
          else
            (case lookup root (butlast p) of
               Some (Parent ty c0 c1 c2 c3) \<Rightarrow>
                 (case sibbling_types [c0, c1, c2, c3] maximum_detail_loss 0 [] of
                    Inl e \<Rightarrow> Inl e
                  | Inr None \<Rightarrow> Inr (False, root)
                  | Inr (Some types) \<Rightarrow>
                      (let mean = cdiv (types ! 0 + types ! 1 + types ! 2 + types ! 3) 4 in
                       if \<not> (mean = int_of_Type BLACK_TREE \<or> mean = int_of_Type GREY_TREE
                              \<or> mean = int_of_Type WHITE_TREE)
                       then Inl MergedToInvalidType
                       else Inr (True, set_type root (butlast p) (Type_of_int mean))))
             | _ \<Rightarrow> Inl NullDereference))"

subsection \<open>get_leaves\<close>

text \<open>
  \<^verbatim>\<open>get_leaves(result)\<close> on a node reached by \<open>pre\<close>: it looks at the four children without
  looking at the node's own type, so a node with null children dereferences null. The
  result lists the paths of the nodes pushed, in order.
\<close>

fun get_leaves :: "QuadTree \<Rightarrow> nat list \<Rightarrow> error + nat list list"
  and get_leaves_child :: "QuadTree \<Rightarrow> nat list \<Rightarrow> error + nat list list" where
  "get_leaves (Childless ty) pre = Inl NullDereference"
| "get_leaves (Parent ty c0 c1 c2 c3) pre =
     (case get_leaves_child c0 (pre @ [0]) of Inl e \<Rightarrow> Inl e | Inr r0 \<Rightarrow>
     (case get_leaves_child c1 (pre @ [1]) of Inl e \<Rightarrow> Inl e | Inr r1 \<Rightarrow>
     (case get_leaves_child c2 (pre @ [2]) of Inl e \<Rightarrow> Inl e | Inr r2 \<Rightarrow>
     (case get_leaves_child c3 (pre @ [3]) of Inl e \<Rightarrow> Inl e | Inr r3 \<Rightarrow>
        Inr (r0 @ r1 @ r2 @ r3)))))"
| "get_leaves_child c q =
     (case type c of
        UNDEFINED_TREE \<Rightarrow> Inl GetLeavesOnUndefined
      | SPLIT_TREE \<Rightarrow> get_leaves c q
      | _ \<Rightarrow> Inr [q])"

subsection \<open>simplify\<close>

definition maximum_encoded_size :: nat where
  "maximum_encoded_size = 903"

text \<open>
  The variables of \<^verbatim>\<open>simplify\<close> that change in its loop, with the tree itself and the number
  of calls of \<^verbatim>\<open>rand()\<close> made so far. \<^verbatim>\<open>leaves\<close> is filled once, before the loop, and
  \<^verbatim>\<open>last_size\<close> is assigned once, at its declaration. The results of \<^verbatim>\<open>rand()\<close> are a
  parameter \<open>rand\<close>: \<open>rand k\<close> is what call number \<open>k\<close> returns.
\<close>

record simplify_state =
  tree :: QuadTree
  current_size :: nat
  last_size :: nat
  maximum_detail_loss :: nat
  rand_calls :: nat

text \<open>One pass through the body of the \<^verbatim>\<open>while\<close> loop.\<close>

definition simplify_body ::
  "nat list list \<Rightarrow> (nat \<Rightarrow> nat) \<Rightarrow> simplify_state \<Rightarrow> error + simplify_state" where
  "simplify_body leaves rand s =
     (case encoded_size (tree s) of
        Inl e \<Rightarrow> Inl e
      | Inr n \<Rightarrow>
          (let detail = (if last_size s = n then maximum_detail_loss s + 1
                         else maximum_detail_loss s)
           in if last_size s = n \<and> detail > 4 then Inl HopelesslyComplex
              else
                (let index = rand (rand_calls s) mod length leaves;
                     leaf = leaves ! index
                 in case merge_with_sibblings (tree s) leaf detail of
                      Inl e \<Rightarrow> Inl e
                    | Inr (merged, t) \<Rightarrow>
                        Inr \<lparr>tree = t, current_size = n, last_size = last_size s,
                             maximum_detail_loss = detail,
                             rand_calls = rand_calls s + 1\<rparr>)))"

text \<open>
  The loop. It may run forever, so it is a partial function: \<open>None\<close> is a run that never
  leaves the loop, \<open>Some (Inl e)\<close> a run that ends in the error \<open>e\<close>, \<open>Some (Inr t)\<close> a
  run that leaves the loop with the tree \<open>t\<close>.
\<close>

partial_function (option) simplify_loop ::
  "nat list list \<Rightarrow> (nat \<Rightarrow> nat) \<Rightarrow> simplify_state \<Rightarrow> (error + QuadTree) option" where
  "simplify_loop leaves rand s =
     (if leaves \<noteq> [] \<and> current_size s > maximum_encoded_size then
        (case simplify_body leaves rand s of
           Inl e \<Rightarrow> Some (Inl e)
         | Inr s' \<Rightarrow> simplify_loop leaves rand s')
      else Some (Inr (tree s)))"

definition simplify :: "(nat \<Rightarrow> nat) \<Rightarrow> QuadTree \<Rightarrow> (error + QuadTree) option" where
  "simplify rand root =
     (case get_leaves root [] of
        Inl e \<Rightarrow> Some (Inl e)
      | Inr leaves \<Rightarrow>
          (case encoded_size root of
             Inl e \<Rightarrow> Some (Inl e)
           | Inr n \<Rightarrow>
               simplify_loop leaves rand
                 \<lparr>tree = root, current_size = n, last_size = n,
                  maximum_detail_loss = 0, rand_calls = 0\<rparr>))"

subsection \<open>Output\<close>

text \<open>\<^verbatim>\<open>operator<<\<close> on a tree; a split node dereferences its four children.\<close>

fun render :: "QuadTree \<Rightarrow> error + string" where
  "render (Childless ty) =
     (case ty of
        UNDEFINED_TREE \<Rightarrow> Inr ''undefined''
      | BLACK_TREE \<Rightarrow> Inr ''.''
      | GREY_TREE \<Rightarrow> Inr ''/''
      | WHITE_TREE \<Rightarrow> Inr ''#''
      | SPLIT_TREE \<Rightarrow> Inl NullDereference)"
| "render (Parent ty c0 c1 c2 c3) =
     (case ty of
        UNDEFINED_TREE \<Rightarrow> Inr ''undefined''
      | BLACK_TREE \<Rightarrow> Inr ''.''
      | GREY_TREE \<Rightarrow> Inr ''/''
      | WHITE_TREE \<Rightarrow> Inr ''#''
      | SPLIT_TREE \<Rightarrow>
          (case render c0 of Inl e \<Rightarrow> Inl e | Inr r0 \<Rightarrow>
          (case render c1 of Inl e \<Rightarrow> Inl e | Inr r1 \<Rightarrow>
          (case render c2 of Inl e \<Rightarrow> Inl e | Inr r2 \<Rightarrow>
          (case render c3 of Inl e \<Rightarrow> Inl e | Inr r3 \<Rightarrow>
             Inr (''('' @ r0 @ r1 @ r2 @ r3 @ '')''))))))"

section \<open>main\<close>

text \<open>
  \<open>argv\<close> holds the arguments after the name of the program. What \<^verbatim>\<open>main\<close> takes from
  outside the repository is a parameter: \<open>extract\<close> is the stream
  extraction of a \<^verbatim>\<open>size_t\<close> from the second argument (\<open>None\<close> when it fails), \<open>read\<close> is
  \<^verbatim>\<open>image.read\<close> on the first argument, and \<open>rand\<close> the results of \<^verbatim>\<open>rand()\<close>. A read
  either returns or throws, and in both cases leaves the image object in some state; a
  default-constructed image, which a read that throws before it has decoded anything leaves
  as it is, has width and height 0.
\<close>

record png_image =
  image_width :: nat
  image_height :: nat
  get_pixel :: "nat \<Rightarrow> nat \<Rightarrow> 8 word"

datatype read_result = Returns png_image | Throws png_image

definition default_image :: png_image where
  "default_image = \<lparr>image_width = 0, image_height = 0, get_pixel = (\<lambda>x y. 0)\<rparr>"

fun build_matrix_row :: "png_image \<Rightarrow> nat \<Rightarrow> nat list \<Rightarrow> 8 word Matrix \<Rightarrow> error + 8 word Matrix" where
  "build_matrix_row img y [] pixels = Inr pixels"
| "build_matrix_row img y (x # xs) pixels =
     (case Matrix_put pixels x y (get_pixel img x y) of
        Inl e \<Rightarrow> Inl e
      | Inr pixels' \<Rightarrow> build_matrix_row img y xs pixels')"

fun build_matrix_rows :: "png_image \<Rightarrow> nat list \<Rightarrow> 8 word Matrix \<Rightarrow> error + 8 word Matrix" where
  "build_matrix_rows img [] pixels = Inr pixels"
| "build_matrix_rows img (y # ys) pixels =
     (case build_matrix_row img y [0..<image_width img] pixels of
        Inl e \<Rightarrow> Inl e
      | Inr pixels' \<Rightarrow> build_matrix_rows img ys pixels')"

text \<open>
  How a run ends: \<^verbatim>\<open>main\<close> returns a status, or the run meets undefined behaviour. The
  lines written to \<^verbatim>\<open>cerr\<close> and \<^verbatim>\<open>cout\<close> are kept in order.
\<close>

datatype ending = Returned int | Undefined error

record process =
  cerr :: "string list"
  cout :: "string list"
  ending :: ending

text \<open>
  An exception leaves the \<^verbatim>\<open>try\<close> block of \<^verbatim>\<open>main\<close>: the handler writes \<^verbatim>\<open>error.what()\<close>
  and returns 1.
\<close>

definition failed :: "string list \<Rightarrow> error \<Rightarrow> process" where
  "failed log e =
     (if is_exception e then \<lparr>cerr = log @ [what e], cout = [], ending = Returned 1\<rparr>
      else \<lparr>cerr = log, cout = [], ending = Undefined e\<rparr>)"

definition main ::
  "(string \<Rightarrow> nat option) \<Rightarrow> (string \<Rightarrow> read_result) \<Rightarrow> (nat \<Rightarrow> nat) \<Rightarrow> string list
     \<Rightarrow> process option" where
  "main extract read rand argv =
     (if length argv < 1 \<or> length argv > 2 then Some (failed [] Usage)
      else
        (case (if length argv = 2
               then (case extract (argv ! 1) of
                       None \<Rightarrow> Inl InvalidCellSize
                     | Some n \<Rightarrow> Inr n)
               else Inr 64) of
           Inl e \<Rightarrow> Some (failed [] e)
         | Inr minimum_cell_size \<Rightarrow>
        (let log1 = [''Reading '' @ argv ! 0];
             img = (case read (argv ! 0) of Returns i \<Rightarrow> i | Throws i \<Rightarrow> i);
             log2 = log1 @ [''Needlessly building matrix'']
         in case build_matrix_rows img [0..<image_height img]
                   (Matrix_new (image_width img) (image_height img)) of
              Inl e \<Rightarrow> Some (failed log2 e)
            | Inr pixels \<Rightarrow>
        (let log3 = log2 @ [''Making matrix square'']
         in case make_square pixels of
              Inl e \<Rightarrow> Some (failed log3 e)
            | Inr square \<Rightarrow>
        (let log4 = log3 @ [''Building quadtree'']
         in case QuadTree_new minimum_cell_size square of
              Inl e \<Rightarrow> Some (failed log4 e)
            | Inr t \<Rightarrow>
        (let log5 = log4 @ [''Merging leaves'']
         in case merge_leaves t of
              Inl e \<Rightarrow> Some (failed log5 e)
            | Inr merged \<Rightarrow>
        (let log6 = log5 @ [''Simplifying'']
         in case simplify rand merged of
              None \<Rightarrow> None
            | Some (Inl e) \<Rightarrow> Some (failed log6 e)
            | Some (Inr simplified) \<Rightarrow>
                (case render simplified of
                   Inl e \<Rightarrow> Some (failed log6 e)
                 | Inr rendered \<Rightarrow>
                     Some \<lparr>cerr = log6, cout = [rendered], ending = Returned 0\<rparr>))))))))"

section \<open>Predicates and inputs of the statements\<close>

text \<open>The three leaf categories.\<close>

definition leaf_type :: "Type \<Rightarrow> bool" where
  "leaf_type ty = (ty = BLACK_TREE \<or> ty = GREY_TREE \<or> ty = WHITE_TREE)"

text \<open>
  A tree all of whose nodes are classified: no node has the undefined type, and a node
  without children has a leaf category (a split node has its four children).
\<close>

fun classified :: "QuadTree \<Rightarrow> bool" where
  "classified (Childless ty) = leaf_type ty"
| "classified (Parent ty c0 c1 c2 c3) =
     (ty \<noteq> UNDEFINED_TREE \<and> classified c0 \<and> classified c1 \<and> classified c2 \<and> classified c3)"

text \<open>The shape of the trees that \<^verbatim>\<open>init\<close> returns.\<close>

fun built :: "QuadTree \<Rightarrow> bool" where
  "built (Childless ty) = leaf_type ty"
| "built (Parent ty c0 c1 c2 c3) =
     (ty = SPLIT_TREE \<and> built c0 \<and> built c1 \<and> built c2 \<and> built c3)"

fun split_has_children :: "QuadTree \<Rightarrow> bool" where
  "split_has_children (Childless ty) = (ty \<noteq> SPLIT_TREE)"
| "split_has_children (Parent ty c0 c1 c2 c3) =
     (split_has_children c0 \<and> split_has_children c1 \<and> split_has_children c2
      \<and> split_has_children c3)"

text \<open>
  The \<^verbatim>\<open>children\<close> pointers of a tree, with the types left out, and the invariant that only
  split nodes hold children.
\<close>

datatype pointers = Null | Four pointers pointers pointers pointers

fun children :: "QuadTree \<Rightarrow> pointers" where
  "children (Childless ty) = Null"
| "children (Parent ty c0 c1 c2 c3) =
     Four (children c0) (children c1) (children c2) (children c3)"

fun leaves_are_childless :: "QuadTree \<Rightarrow> bool" where
  "leaves_are_childless (Childless ty) = True"
| "leaves_are_childless (Parent ty c0 c1 c2 c3) =
     (ty = SPLIT_TREE \<and> leaves_are_childless c0 \<and> leaves_are_childless c1
      \<and> leaves_are_childless c2 \<and> leaves_are_childless c3)"

text \<open>Paths of child indexes, and all of them of a given length, in the order of a traversal.\<close>

definition valid_path :: "nat list \<Rightarrow> bool" where
  "valid_path p = list_all (\<lambda>i. i < 4) p"

fun all_paths :: "nat \<Rightarrow> nat list list" where
  "all_paths 0 = [[]]"
| "all_paths (Suc n) =
     map ((#) 0) (all_paths n) @ map ((#) 1) (all_paths n)
     @ map ((#) 2) (all_paths n) @ map ((#) 3) (all_paths n)"

text \<open>
  A node over four childless leaves, and a tree that is split down to such nodes, \<open>k\<close>
  levels below its root.
\<close>

fun bottomed :: "QuadTree \<Rightarrow> bool" where
  "bottomed (Parent ty (Childless a) (Childless b) (Childless c) (Childless d)) =
     (ty \<noteq> UNDEFINED_TREE \<and> leaf_type a \<and> leaf_type b \<and> leaf_type c \<and> leaf_type d)"
| "bottomed t = False"

fun rigid :: "nat \<Rightarrow> QuadTree \<Rightarrow> bool" where
  "rigid 0 t = bottomed t"
| "rigid (Suc k) (Parent ty c0 c1 c2 c3) =
     (ty = SPLIT_TREE \<and> rigid k c0 \<and> rigid k c1 \<and> rigid k c2 \<and> rigid k c3)"
| "rigid (Suc k) (Childless ty) = False"

subsection \<open>Grids and trees\<close>

text \<open>A 2 by 2 grid of dark samples and the tree built from it with cell size 1.\<close>

definition dark_grid :: "8 word Matrix" where
  "dark_grid = \<lparr>width = 2, height = 2, data = [0, 0, 0, 0]\<rparr>"

definition dark_split :: QuadTree where
  "dark_split = Parent SPLIT_TREE (Childless BLACK_TREE) (Childless BLACK_TREE)
                                  (Childless BLACK_TREE) (Childless BLACK_TREE)"

definition dark_merged :: QuadTree where
  "dark_merged = Parent BLACK_TREE (Childless BLACK_TREE) (Childless BLACK_TREE)
                                   (Childless BLACK_TREE) (Childless BLACK_TREE)"

text \<open>A 2 by 2 grid with one sample of each category and a fourth one.\<close>

definition mixed_grid :: "8 word Matrix" where
  "mixed_grid = \<lparr>width = 2, height = 2, data = [0, 60, 200, 255]\<rparr>"

definition mixed_split :: QuadTree where
  "mixed_split = Parent SPLIT_TREE (Childless BLACK_TREE) (Childless GREY_TREE)
                                   (Childless WHITE_TREE) (Childless WHITE_TREE)"

text \<open>A 1 by 1 image, and a 3 by 1 grid.\<close>

definition pixel_image :: png_image where
  "pixel_image = \<lparr>image_width = 1, image_height = 1, get_pixel = (\<lambda>x y. 0)\<rparr>"

definition three_by_one :: "8 word Matrix" where
  "three_by_one = \<lparr>width = 3, height = 1, data = [10, 20, 30]\<rparr>"

text \<open>
  A 64 by 64 grid of vertical stripes, light in the even columns and dark in the odd ones.
  With cell size 1 its tree is split six levels deep, every node of the fifth level over a
  light, a dark, a light and a dark leaf.
\<close>

definition stripes :: "8 word Matrix" where
  "stripes =
     \<lparr>width = 64, height = 64, data = map (\<lambda>i. if even i then 255 else 0) [0..<4096]\<rparr>"

definition striped_cell :: QuadTree where
  "striped_cell = Parent SPLIT_TREE (Childless WHITE_TREE) (Childless BLACK_TREE)
                                    (Childless WHITE_TREE) (Childless BLACK_TREE)"

fun striped :: "nat \<Rightarrow> QuadTree" where
  "striped 0 = striped_cell"
| "striped (Suc k) = Parent SPLIT_TREE (striped k) (striped k) (striped k) (striped k)"

text \<open>
  The leaves that \<^verbatim>\<open>simplify\<close> lists for \<open>striped 5\<close>, and that tree after the parent of
  its first leaf was merged.
\<close>

definition striped_leaves :: "nat list list" where
  "striped_leaves = map ((@) []) (all_paths 6)"

definition dented :: QuadTree where
  "dented = set_type (striped 5) (replicate 5 0) GREY_TREE"

text \<open>
  The state in which \<^verbatim>\<open>simplify\<close> enters its loop on \<open>striped 5\<close>, the state after a
  number of passes of the loop (a pass is made while the test of the loop holds), and the
  size of a tree as a number.
\<close>

definition striped_start :: simplify_state where
  "striped_start = \<lparr>tree = striped 5, current_size = 8192, last_size = 8192,
                     maximum_detail_loss = 0, rand_calls = 0\<rparr>"

fun passes :: "nat \<Rightarrow> nat list list \<Rightarrow> (nat \<Rightarrow> nat) \<Rightarrow> simplify_state \<Rightarrow> error + simplify_state" where
  "passes 0 leaves rand s = Inr s"
| "passes (Suc n) leaves rand s =
     (if leaves \<noteq> [] \<and> current_size s > maximum_encoded_size then
        (case simplify_body leaves rand s of
           Inl e \<Rightarrow> Inl e
         | Inr s' \<Rightarrow> passes n leaves rand s')
      else Inr s)"

definition tree_size :: "QuadTree \<Rightarrow> nat" where
  "tree_size t = (case encoded_size t of Inl e \<Rightarrow> 0 | Inr n \<Rightarrow> n)"

text \<open>
  The states of the loop on \<open>striped 5\<close> after its first pass: the tree is still split
  down to the fifth level, so its size stays above the budget, and it is below the size
  kept in \<^verbatim>\<open>last_size\<close>.
\<close>

definition stuck :: "simplify_state \<Rightarrow> bool" where
  "stuck s =
     (rigid 5 (tree s) \<and> 903 < current_size s \<and> last_size s = 8192 \<and>
      (\<exists>n. encoded_size (tree s) = Inr n \<and> n + 6 \<le> 8192))"

definition deep_leaves :: "nat list list \<Rightarrow> bool" where
  "deep_leaves leaves =
     (leaves \<noteq> [] \<and> list_all (\<lambda>p. length p = 6 \<and> valid_path p) leaves)"

section \<open>Arithmetic of categories\<close>

lemma leaf_type_range: "leaf_type ty \<Longrightarrow> 0 \<le> int_of_Type ty \<and> int_of_Type ty \<le> 2"
  by (auto simp: leaf_type_def)

lemma leaf_type_not_split: "leaf_type ty \<Longrightarrow> ty \<noteq> SPLIT_TREE"
  by (auto simp: leaf_type_def)

lemma Type_of_int_leaf: "i = 0 \<or> i = 1 \<or> i = 2 \<Longrightarrow> leaf_type (Type_of_int i)"
  by (auto simp: leaf_type_def Type_of_int_def)

lemma mean_of_four:
  assumes "0 \<le> a" "a \<le> 2" "0 \<le> b" "b \<le> 2" "0 \<le> c" "c \<le> 2" "0 \<le> d" "d \<le> (2::int)"
  shows "cdiv (a + b + c + d) 4 = 0 \<or> cdiv (a + b + c + d) 4 = 1 \<or> cdiv (a + b + c + d) 4 = 2"
proof -
  have "0 \<le> a + b + c + d" "a + b + c + d \<le> 8" using assms by linarith+
  then have "cdiv (a + b + c + d) 4 = (a + b + c + d) div 4"
    by (simp add: cdiv_def)
  moreover have "0 \<le> (a + b + c + d) div 4" "(a + b + c + d) div 4 \<le> 2"
    using \<open>0 \<le> a + b + c + d\<close> \<open>a + b + c + d \<le> 8\<close> by linarith+
  ultimately show ?thesis by linarith
qed

lemma four_cases: "i < (4::nat) \<Longrightarrow> i = 0 \<or> i = 1 \<or> i = 2 \<or> i = 3"
  by arith

section \<open>The mean category\<close>

lemma mean_type_classified:
  "classified t \<Longrightarrow> \<exists>c. mean_type t = Inr c \<and> leaf_type c"
proof (induction t)
  case (Childless ty)
  then show ?case by (auto simp: leaf_type_def)
next
  case (Parent ty c0 c1 c2 c3)
  then obtain t0 t1 t2 t3 where m:
    "mean_type c0 = Inr t0" "leaf_type t0" "mean_type c1 = Inr t1" "leaf_type t1"
    "mean_type c2 = Inr t2" "leaf_type t2" "mean_type c3 = Inr t3" "leaf_type t3"
    by auto
  have "leaf_type (Type_of_int
      (cdiv (int_of_Type t0 + int_of_Type t1 + int_of_Type t2 + int_of_Type t3) 4))"
    using m by (intro Type_of_int_leaf mean_of_four) (simp_all add: leaf_type_range)
  with m Parent.prems show ?case
    by (cases ty) (auto simp: leaf_type_def)
qed

lemma classified_child: "classified t \<Longrightarrow> child t i = Some c \<Longrightarrow> classified c"
  by (cases t) (auto split: if_splits)

lemma classified_lookup: "classified t \<Longrightarrow> lookup t p = Some n \<Longrightarrow> classified n"
  by (induction p arbitrary: t) (auto split: option.splits dest: classified_child)

lemma classified_type_leaf: "classified t \<Longrightarrow> type t \<noteq> SPLIT_TREE \<Longrightarrow> leaf_type (type t)"
  by (cases t; cases "type t") (auto simp: leaf_type_def)

lemma sibbling_types_range:
  "\<forall>s \<in> set sibs. classified s \<Longrightarrow> \<forall>v \<in> set acc. 0 \<le> v \<and> v \<le> 2 \<Longrightarrow>
   sibbling_types sibs m k acc = Inr (Some tys) \<Longrightarrow>
   length tys = length acc + length sibs \<and> (\<forall>v \<in> set tys. 0 \<le> v \<and> v \<le> 2)"
proof (induction sibs arbitrary: k acc)
  case Nil
  then show ?case by simp
next
  case (Cons s sibs)
  show ?case
  proof (cases "type s = SPLIT_TREE")
    case True
    from Cons.prems(1) obtain c where c: "mean_type s = Inr c" "leaf_type c"
      using mean_type_classified by fastforce
    from Cons.prems(3) True c have
      rec: "sibbling_types sibs m (k + 1) (acc @ [int_of_Type c]) = Inr (Some tys)"
      by (auto split: if_splits)
    have "\<forall>v \<in> set (acc @ [int_of_Type c]). 0 \<le> v \<and> v \<le> 2"
      using Cons.prems(2) c(2) by (auto simp: leaf_type_range)
    from Cons.IH[OF _ this rec] Cons.prems(1) show ?thesis by simp
  next
    case False
    with Cons.prems(3) have
      rec: "sibbling_types sibs m k (acc @ [int_of_Type (type s)]) = Inr (Some tys)"
      by simp
    have "leaf_type (type s)" using Cons.prems(1) False by (simp add: classified_type_leaf)
    then have "\<forall>v \<in> set (acc @ [int_of_Type (type s)]). 0 \<le> v \<and> v \<le> 2"
      using Cons.prems(2) by (auto simp: leaf_type_range)
    from Cons.IH[OF _ this rec] Cons.prems(1) show ?thesis by simp
  qed
qed

lemma sibbling_types_total:
  "\<forall>s \<in> set sibs. classified s \<Longrightarrow> \<exists>r. sibbling_types sibs m k acc = Inr r"
proof (induction sibs arbitrary: k acc)
  case Nil
  then show ?case by simp
next
  case (Cons s sibs)
  then obtain c where "mean_type s = Inr c"
    using mean_type_classified by fastforce
  with Cons show ?case by simp
qed

lemma merge_never_invalid:
  assumes "classified root"
  shows "merge_with_sibblings root p m \<noteq> Inl MergedToInvalidType"
proof
  assume bad: "merge_with_sibblings root p m = Inl MergedToInvalidType"
  show False
  proof (cases "lookup root (butlast p)")
    case None
    with bad show False
      by (simp add: merge_with_sibblings_def split: option.splits if_splits)
  next
    case (Some par)
    show False
    proof (cases par)
      case (Childless ty)
      with bad Some show False
        by (simp add: merge_with_sibblings_def split: option.splits if_splits)
    next
      case (Parent ty c0 c1 c2 c3)
      have "classified (Parent ty c0 c1 c2 c3)"
        using assms Some Parent classified_lookup by blast
      then have cl: "\<forall>s \<in> set [c0, c1, c2, c3]. classified s" by simp
      from sibbling_types_total[OF cl] obtain r where
        r: "sibbling_types [c0, c1, c2, c3] m 0 [] = Inr r" by blast
      show False
      proof (cases r)
        case None
        with bad Some Parent r show False
          by (simp add: merge_with_sibblings_def del: sibbling_types.simps
              split: option.splits if_splits)
      next
        case (Some tys)
        from sibbling_types_range[OF cl _ r[unfolded Some]]
        have len: "length tys = 4" and rng: "\<forall>v \<in> set tys. 0 \<le> v \<and> v \<le> 2" by simp_all
        have "\<And>i. i < 4 \<Longrightarrow> 0 \<le> tys ! i \<and> tys ! i \<le> 2" using len rng by simp
        then have "0 \<le> tys ! 0" "tys ! 0 \<le> 2" "0 \<le> tys ! 1" "tys ! 1 \<le> 2"
          "0 \<le> tys ! 2" "tys ! 2 \<le> 2" "0 \<le> tys ! 3" "tys ! 3 \<le> 2" by simp_all
        from mean_of_four[OF this]
        have "cdiv (tys ! 0 + tys ! 1 + tys ! 2 + tys ! 3) 4 = 0 \<or>
              cdiv (tys ! 0 + tys ! 1 + tys ! 2 + tys ! 3) 4 = 1 \<or>
              cdiv (tys ! 0 + tys ! 1 + tys ! 2 + tys ! 3) 4 = 2" .
        with bad \<open>lookup root (butlast p) = Some par\<close> Parent r Some show False
          by (simp add: merge_with_sibblings_def Let_def del: sibbling_types.simps
              split: option.splits if_splits)
      qed
    qed
  qed
qed

text \<open>
  Claim C3. In a tree whose nodes are all classified, the mean category of every node is
  computed and is one of the three leaf categories, and \<^verbatim>\<open>merge_with_sibblings\<close> never
  throws ``merged to invalid type'', whatever leaf and tolerance it is called with.
\<close>

theorem mean_category_is_leaf_category:
  assumes "classified root" and "lookup root p = Some node"
  shows "(\<exists>c. mean_type node = Inr c \<and> (c = BLACK_TREE \<or> c = GREY_TREE \<or> c = WHITE_TREE))
         \<and> merge_with_sibblings root leaf tolerance \<noteq> Inl MergedToInvalidType"
proof -
  from assms have "classified node" by (rule classified_lookup)
  from mean_type_classified[OF this] merge_never_invalid[OF assms(1)]
  show ?thesis by (simp add: leaf_type_def)
qed

text \<open>
  The theorem at the tree of the mixed grid: the mean category of its root is
  (0 + 1 + 2 + 2) / 4 = 1, and merging at its first leaf succeeds.
\<close>

theorem mean_category_is_leaf_category_witness:
  "classified mixed_split \<and> lookup mixed_split [] = Some mixed_split
   \<and> mean_type mixed_split = Inr GREY_TREE
   \<and> merge_with_sibblings mixed_split [0] 0 \<noteq> Inl MergedToInvalidType"
  using mean_category_is_leaf_category [of mixed_split "[]" mixed_split "[0]" 0]
  by (simp add: mixed_split_def leaf_type_def cdiv_def Type_of_int_def)

section \<open>Construction\<close>

lemma init_built: "init m matrix x y sz = Inr t \<Longrightarrow> built t"
proof (induction m matrix x y sz arbitrary: t rule: init.induct)
  case (1 m matrix x y sz)
  show ?case
  proof (cases "sz \<le> m")
    case True
    with "1.prems" show ?thesis
      by (subst (asm) init.simps) (auto simp: leaf_type_def split: sum.splits if_splits)
  next
    case False
    from "1.prems" False obtain c0 c1 c2 c3 where
      c: "init m matrix x y (sz div 2) = Inr c0"
         "init m matrix (x + sz div 2) y (sz div 2) = Inr c1"
         "init m matrix x (y + sz div 2) (sz div 2) = Inr c2"
         "init m matrix (x + sz div 2) (y + sz div 2) (sz div 2) = Inr c3"
      and t: "t = Parent SPLIT_TREE c0 c1 c2 c3"
      by (subst (asm) init.simps) (auto simp: Let_def split: sum.splits)
    from "1.IH"(1)[OF False refl c(1)] "1.IH"(2)[OF False refl c(1) c(2)]
      "1.IH"(3)[OF False refl c(1) c(2) c(3)] "1.IH"(4)[OF False refl c(1) c(2) c(3) c(4)] t
    show ?thesis by simp
  qed
qed

lemma built_split_has_children: "built t \<Longrightarrow> split_has_children t"
  by (induction t) (auto simp: leaf_type_def)

lemma built_leaves_are_childless: "built t \<Longrightarrow> leaves_are_childless t"
  by (induction t) auto

lemma init_mixed_grid: "init 1 mixed_grid 0 0 2 = Inr mixed_split"
  by (simp add: init.simps mixed_grid_def mixed_split_def Matrix_at_def)

lemma init_dark_grid: "init 1 dark_grid 0 0 2 = Inr dark_split"
  by (simp add: init.simps dark_grid_def dark_split_def Matrix_at_def)

text \<open>
  Claim C9, as stated for every grid and origin, fails. \<^verbatim>\<open>init\<close> reads \<^verbatim>\<open>matrix(x, y)\<close>
  without a check, and on the empty grid, whose region of size 0 is within the default
  cell size, the sample at the origin (0, 0) is past the end of the array: construction
  returns no leaf. The same holds for the origin (2, 2) of the 2 by 2 mixed grid.
\<close>

theorem init_small_region_without_sample_counterexample:
  "(0::nat) \<le> 64
   \<and> Matrix_at (Matrix_new 0 0 :: 8 word Matrix) 0 0 = Inl OutOfBounds
   \<and> init 64 (Matrix_new 0 0) 0 0 0 = Inl OutOfBounds
   \<and> (1::nat) \<le> 64
   \<and> Matrix_at mixed_grid 2 2 = Inl OutOfBounds
   \<and> init 64 mixed_grid 2 2 1 = Inl OutOfBounds"
proof -
  have "init 64 (Matrix_new 0 0) 0 0 0 = Inl OutOfBounds"
    by (subst init.simps) (simp add: Matrix_at_def Matrix_new_def)
  moreover have "init 64 mixed_grid 2 2 1 = Inl OutOfBounds"
    by (subst init.simps) (simp add: Matrix_at_def mixed_grid_def)
  ultimately show ?thesis
    by (simp add: Matrix_at_def Matrix_new_def mixed_grid_def)
qed

text \<open>
  Claim C9, amended. When the region is no larger than the minimum cell size and the
  sample at its origin is inside the array of the grid, so that it is read, construction
  returns a node without children whose category is that of this one sample: dark below
  51, mid from 51 and below 153, and light from 153.
\<close>

theorem init_small_region_classifies_origin:
  assumes "sz \<le> minimum_cell_size" and "Matrix_at matrix x y = Inr v"
  shows "init minimum_cell_size matrix x y sz =
           Inr (Childless (if uint v < 51 then BLACK_TREE
                           else if uint v < 153 then GREY_TREE
                           else WHITE_TREE))"
  using assms by (subst init.simps) simp

text \<open>The theorem at the second sample of the mixed grid, 60, with the default cell size.\<close>

theorem init_small_region_classifies_origin_witness:
  "(2::nat) \<le> 64 \<and> Matrix_at mixed_grid 1 0 = Inr 60
   \<and> init 64 mixed_grid 1 0 2 = Inr (Childless GREY_TREE)"
proof -
  have a: "(2::nat) \<le> 64" by simp
  have b: "Matrix_at mixed_grid 1 0 = Inr 60" by (simp add: Matrix_at_def mixed_grid_def)
  from init_small_region_classifies_origin [OF a b] a b show ?thesis by simp
qed

text \<open>
  Claim C10. On the empty grid the sample at (0, 0) is past the end of the array, and
  the constructor, whose region of size 0 is within every minimum cell size, ends in that
  read: it returns no tree. The empty grid is what \<^verbatim>\<open>main\<close> builds from the default image
  and what \<^verbatim>\<open>make_square\<close> returns for it.
\<close>

theorem empty_grid_construction_reads_out_of_bounds:
  "build_matrix_rows default_image [0..<image_height default_image]
       (Matrix_new (image_width default_image) (image_height default_image))
     = Inr (Matrix_new 0 0)
   \<and> make_square (Matrix_new 0 0 :: 8 word Matrix) = Inr (Matrix_new 0 0)
   \<and> Matrix_at (Matrix_new 0 0 :: 8 word Matrix) 0 0 = Inl OutOfBounds
   \<and> QuadTree_new minimum_cell_size (Matrix_new 0 0) = Inl OutOfBounds"
proof -
  have "next_greater_power_of_2 0 = 0" by (simp add: next_greater_power_of_2_def)
  then have "make_square (Matrix_new 0 0 :: 8 word Matrix) = Inr (Matrix_new 0 0)"
    by (simp add: make_square_def get_width_def get_height_def Matrix_new_def)
  moreover have "QuadTree_new minimum_cell_size (Matrix_new 0 0) = Inl OutOfBounds"
    by (subst QuadTree_new_def, subst init.simps)
      (simp add: Matrix_at_def Matrix_new_def get_width_def)
  ultimately show ?thesis
    by (simp add: default_image_def Matrix_at_def Matrix_new_def)
qed

section \<open>merge_leaves\<close>

lemma merge_leaves_total: "split_has_children t \<Longrightarrow> \<exists>t'. merge_leaves t = Inr t'"
  by (induction t) (auto simp: Let_def)

lemma merge_leaves_idem: "merge_leaves t = Inr t' \<Longrightarrow> merge_leaves t' = Inr t'"
proof (induction t arbitrary: t')
  case (Childless ty)
  then show ?case by (auto split: if_splits)
next
  case (Parent ty c0 c1 c2 c3)
  show ?case
  proof (cases "ty = SPLIT_TREE")
    case False
    with Parent.prems show ?thesis by auto
  next
    case True
    with Parent.prems obtain d0 d1 d2 d3 where
      d: "merge_leaves c0 = Inr d0" "merge_leaves c1 = Inr d1"
         "merge_leaves c2 = Inr d2" "merge_leaves c3 = Inr d3"
      by (auto split: sum.splits)
    define types where "types = sorted_unique [type d0, type d1, type d2, type d3]"
    have t': "t' = (if length types \<noteq> 1 \<or> types ! 0 = int_of_Type SPLIT_TREE
                   then Parent ty d0 d1 d2 d3
                   else Parent (Type_of_int (types ! 0)) d0 d1 d2 d3)"
      using Parent.prems True d by (auto simp: types_def Let_def split: if_splits)
    have dd: "merge_leaves d0 = Inr d0" "merge_leaves d1 = Inr d1"
      "merge_leaves d2 = Inr d2" "merge_leaves d3 = Inr d3"
      using Parent.IH d by blast+
    show ?thesis
    proof (cases "length types \<noteq> 1 \<or> types ! 0 = int_of_Type SPLIT_TREE")
      case True
      with t' \<open>ty = SPLIT_TREE\<close> dd show ?thesis
        by (simp add: types_def[symmetric] Let_def)
    next
      case False
      then have "types ! 0 \<noteq> 3" by simp
      then have "Type_of_int (types ! 0) \<noteq> SPLIT_TREE"
        by (simp add: Type_of_int_def)
      with t' False show ?thesis by simp
    qed
  qed
qed

lemma merge_leaves_dark: "merge_leaves dark_split = Inr dark_merged"
  by (simp add: dark_split_def dark_merged_def sorted_unique_def Type_of_int_def)

text \<open>
  Claim C5. On every tree that construction returns, \<^verbatim>\<open>merge_leaves\<close> returns a tree, and
  applied to that tree it returns the same tree.
\<close>

theorem merge_leaves_idempotent:
  assumes "init minimum_cell_size matrix x y sz = Inr t"
  shows "\<exists>t'. merge_leaves t = Inr t' \<and> merge_leaves t' = Inr t'"
proof -
  from assms have "split_has_children t"
    by (intro built_split_has_children init_built)
  then obtain t' where "merge_leaves t = Inr t'"
    using merge_leaves_total by blast
  then show ?thesis using merge_leaves_idem by blast
qed

text \<open>The theorem at the dark grid: the split of four dark leaves merges once.\<close>

theorem merge_leaves_idempotent_witness:
  "init 1 dark_grid 0 0 2 = Inr dark_split
   \<and> (\<exists>t'. merge_leaves dark_split = Inr t' \<and> merge_leaves t' = Inr t')
   \<and> merge_leaves dark_split = Inr dark_merged \<and> merge_leaves dark_merged = Inr dark_merged"
  using merge_leaves_idempotent [OF init_dark_grid] init_dark_grid merge_leaves_dark
  by (simp add: dark_merged_def)

section \<open>The children of a merged node\<close>

lemma merge_leaves_children: "merge_leaves t = Inr t' \<Longrightarrow> children t' = children t"
proof (induction t arbitrary: t')
  case (Childless ty)
  then show ?case by (auto split: if_splits)
next
  case (Parent ty c0 c1 c2 c3)
  then show ?case
    by (auto simp: Let_def split: if_splits sum.splits)
qed

lemma set_type_children: "children (set_type t p ty) = children t"
  by (induction t p ty rule: set_type.induct) auto

lemma merge_with_sibblings_cases:
  assumes "merge_with_sibblings root p m = Inr (b, t)"
  shows "t = root \<or> (\<exists>ty. t = set_type root (butlast p) ty)"
proof (cases "lookup root (butlast p)")
  case None
  with assms show ?thesis
    by (simp add: merge_with_sibblings_def split: option.splits if_splits)
next
  case (Some par)
  show ?thesis
  proof (cases par)
    case (Childless ty)
    with assms Some show ?thesis
      by (simp add: merge_with_sibblings_def split: option.splits if_splits)
  next
    case (Parent ty c0 c1 c2 c3)
    show ?thesis
    proof (cases "sibbling_types [c0, c1, c2, c3] m 0 []")
      case (Inl e)
      with assms Some Parent show ?thesis
        by (simp add: merge_with_sibblings_def del: sibbling_types.simps
            split: option.splits if_splits)
    next
      case (Inr r)
      with assms Some Parent show ?thesis
        by (cases r)
          (auto simp: merge_with_sibblings_def Let_def simp del: sibbling_types.simps
            split: option.splits if_splits)
    qed
  qed
qed

lemma merge_with_sibblings_children:
  "merge_with_sibblings root p m = Inr (b, t) \<Longrightarrow> children t = children root"
  using merge_with_sibblings_cases[of root p m b t] by (auto simp: set_type_children)

lemma child_children:
  assumes "children t' = children t"
  shows "(child t' i = None \<and> child t i = None) \<or>
         (\<exists>c c'. child t i = Some c \<and> child t' i = Some c' \<and> children c' = children c)"
proof (cases t)
  case (Childless ty)
  with assms show ?thesis by (cases t') simp_all
next
  case (Parent ty c0 c1 c2 c3)
  with assms obtain ty' d0 d1 d2 d3 where "t' = Parent ty' d0 d1 d2 d3"
    by (cases t') simp_all
  with Parent assms show ?thesis by simp
qed

lemma lookup_children:
  "children t' = children t \<Longrightarrow> (lookup t' p = None) = (lookup t p = None)"
proof (induction p arbitrary: t t')
  case Nil
  then show ?case by simp
next
  case (Cons i p)
  from child_children[OF Cons.prems, of i] show ?case
  proof
    assume "child t' i = None \<and> child t i = None"
    then show ?thesis by simp
  next
    assume "\<exists>c c'. child t i = Some c \<and> child t' i = Some c' \<and> children c' = children c"
    then obtain c c' where "child t i = Some c" "child t' i = Some c'" "children c' = children c"
      by blast
    with Cons.IH[of c' c] show ?thesis by simp
  qed
qed

text \<open>
  Claim C7, as stated, fails. The tree of the dark grid has no leaf with children, and
  \<^verbatim>\<open>merge_leaves\<close> turns its root into a dark leaf that still holds its four children;
  \<^verbatim>\<open>get_leaves\<close>, the first step of \<^verbatim>\<open>simplify\<close>, then reads those four children.
  \<^verbatim>\<open>merge_with_sibblings\<close> does the same to the root of the tree of the mixed grid.
\<close>

theorem merged_node_keeps_children_counterexample:
  "QuadTree_new 1 dark_grid = Inr dark_split
   \<and> leaves_are_childless dark_split
   \<and> merge_leaves dark_split = Inr dark_merged
   \<and> \<not> leaves_are_childless dark_merged
   \<and> children dark_merged = Four Null Null Null Null
   \<and> get_leaves dark_merged [] = Inr [[0], [1], [2], [3]]
   \<and> merge_with_sibblings mixed_split [0] 0 =
        Inr (True, Parent GREY_TREE (Childless BLACK_TREE) (Childless GREY_TREE)
                                    (Childless WHITE_TREE) (Childless WHITE_TREE))"
proof -
  have "QuadTree_new 1 dark_grid = Inr dark_split"
    using init_dark_grid by (simp add: QuadTree_new_def get_width_def dark_grid_def)
  moreover have "merge_with_sibblings mixed_split [0] 0 =
        Inr (True, Parent GREY_TREE (Childless BLACK_TREE) (Childless GREY_TREE)
                                    (Childless WHITE_TREE) (Childless WHITE_TREE))"
    by (simp add: merge_with_sibblings_def mixed_split_def cdiv_def Type_of_int_def)
  ultimately show ?thesis
    using merge_leaves_dark by (simp add: dark_split_def dark_merged_def)
qed

text \<open>
  Claim C7, amended. After construction no node with a leaf category holds children.
  \<^verbatim>\<open>merge_leaves\<close> and \<^verbatim>\<open>merge_with_sibblings\<close> assign types only: the tree they leave has
  the children pointers of the tree they were given, so a node they turn into a leaf keeps
  its four children, and every path that reached a node still reaches one.
\<close>

theorem merges_keep_children:
  "(init minimum_cell_size matrix x y sz = Inr t0 \<longrightarrow> leaves_are_childless t0)
   \<and> (merge_leaves t = Inr t1 \<longrightarrow>
        children t1 = children t \<and> (\<forall>p. (lookup t1 p = None) = (lookup t p = None)))
   \<and> (merge_with_sibblings root leaf tolerance = Inr (merged, t2) \<longrightarrow>
        children t2 = children root
        \<and> (\<forall>p. (lookup t2 p = None) = (lookup root p = None)))"
  using init_built[of minimum_cell_size matrix x y sz t0] built_leaves_are_childless[of t0]
    merge_leaves_children[of t t1]
    merge_with_sibblings_children[of root leaf tolerance merged t2]
    lookup_children[of t1 t] lookup_children[of t2 root]
  by blast

text \<open>
  The theorem at the dark grid and at the mixed tree: the merged trees have the pointers
  of the trees before, and the path to the first child still reaches a node.
\<close>

theorem merges_keep_children_witness:
  "init 1 dark_grid 0 0 2 = Inr dark_split \<and> leaves_are_childless dark_split
   \<and> merge_leaves dark_split = Inr dark_merged
   \<and> children dark_merged = children dark_split
   \<and> lookup dark_merged [0] = Some (Childless BLACK_TREE)
   \<and> merge_with_sibblings mixed_split [0] 0 = Inr (True, set_type mixed_split [] GREY_TREE)
   \<and> children (set_type mixed_split [] GREY_TREE) = children mixed_split"
proof -
  have m: "merge_with_sibblings mixed_split [0] 0 = Inr (True, set_type mixed_split [] GREY_TREE)"
    by (simp add: merge_with_sibblings_def mixed_split_def cdiv_def Type_of_int_def)
  from merges_keep_children [of 1 dark_grid 0 0 2 dark_split dark_split dark_merged
      mixed_split "[0]" 0 True "set_type mixed_split [] GREY_TREE"]
    init_dark_grid merge_leaves_dark m
  show ?thesis by (simp add: dark_merged_def)
qed

section \<open>Runs on small inputs\<close>

lemma next_greater_power_of_2_values:
  "next_greater_power_of_2 0 = 0" "next_greater_power_of_2 1 = 1"
  "next_greater_power_of_2 3 = 4"
  by (simp_all add: next_greater_power_of_2_def)

text \<open>
  Claim C4 fails on the code. For the 3 by 1 grid the bound of the inner loop is 4, the
  width rounded up, so its last pass reads \<^verbatim>\<open>input(3, 0)\<close>, which is \<^verbatim>\<open>data[3]\<close> of an
  array of three: \<^verbatim>\<open>make_square\<close> returns no grid.
\<close>

theorem make_square_reads_past_the_input:
  "get_width three_by_one = 3 \<and> get_height three_by_one = 1
   \<and> unat (next_greater_power_of_2 (of_nat (get_width three_by_one))) = 4
   \<and> Matrix_at three_by_one 3 0 = Inl OutOfBounds
   \<and> make_square three_by_one = Inl OutOfBounds"
  by (simp add: make_square_def next_greater_power_of_2_values get_width_def get_height_def
      Matrix_new_def Matrix_at_def Matrix_put_def three_by_one_def Let_def upt_rec)

text \<open>
  Claim C6, as stated, fails. When \<^verbatim>\<open>image.read\<close> throws and leaves the default image,
  \<^verbatim>\<open>main\<close> goes on with that empty image: it builds the empty matrix, squares it, and
  starts to build the tree, where the run ends in the read past the empty array. It has
  written four lines by then, none of them a diagnostic, and it does not return 1.
\<close>

theorem main_goes_on_after_failed_read_counterexample:
  "main (\<lambda>arg. None) (\<lambda>name. Throws default_image) (\<lambda>k. 0) [''image.png''] =
     Some \<lparr>cerr = [''Reading image.png'', ''Needlessly building matrix'',
                   ''Making matrix square'', ''Building quadtree''],
           cout = [], ending = Undefined OutOfBounds\<rparr>"
  by (simp add: main_def default_image_def Matrix_new_def make_square_def
      next_greater_power_of_2_values get_width_def get_height_def QuadTree_new_def
      init.simps Matrix_at_def failed_def)

text \<open>
  Claim C6, amended. \<^verbatim>\<open>main\<close> catches what \<^verbatim>\<open>image.read\<close> throws in a handler of its own
  that does nothing, so the failure is ignored: the run after a read that throws is the
  run after a read that returns and leaves the same image, with the same lines written and
  the same end.
\<close>

theorem failed_read_is_ignored:
  "main extract (\<lambda>name. Throws img) rand argv = main extract (\<lambda>name. Returns img) rand argv"
  by (simp add: main_def cong: sum.case_cong)

lemma simplify_within_budget:
  assumes "get_leaves t [] = Inr leaves" and "encoded_size t = Inr n"
    and "n \<le> maximum_encoded_size"
  shows "simplify rand t = Some (Inr t)"
  using assms by (simp add: simplify_def simplify_loop.simps)

text \<open>
  Claim C8 fails on the code. Where \<^verbatim>\<open>get_leaves\<close> and \<^verbatim>\<open>encoded_size\<close> return, a tree
  within the budget is returned as it is (\<open>simplify_within_budget\<close>), but \<^verbatim>\<open>get_leaves\<close>
  does not return on a root without children. The tree of a 1 by 1 image is a single leaf, of size 2, and
  \<^verbatim>\<open>merge_leaves\<close> returns it as it is. \<^verbatim>\<open>simplify\<close> starts with \<^verbatim>\<open>get_leaves\<close>, which
  dereferences the four null children of that root: the run ends there, and so does
  \<^verbatim>\<open>main\<close>.
\<close>

theorem simplify_dereferences_null_on_single_leaf:
  "build_matrix_rows pixel_image [0..<image_height pixel_image]
       (Matrix_new (image_width pixel_image) (image_height pixel_image))
     = Inr \<lparr>width = 1, height = 1, data = [0]\<rparr>
   \<and> make_square \<lparr>width = 1, height = 1, data = [0 :: 8 word]\<rparr>
     = Inr \<lparr>width = 1, height = 1, data = [0]\<rparr>
   \<and> QuadTree_new 64 \<lparr>width = 1, height = 1, data = [0]\<rparr> = Inr (Childless BLACK_TREE)
   \<and> merge_leaves (Childless BLACK_TREE) = Inr (Childless BLACK_TREE)
   \<and> encoded_size (Childless BLACK_TREE) = Inr 2
   \<and> simplify rand (Childless BLACK_TREE) = Some (Inl NullDereference)
   \<and> main extract (\<lambda>name. Returns pixel_image) rand [''image.png''] =
       Some \<lparr>cerr = [''Reading image.png'', ''Needlessly building matrix'',
                     ''Making matrix square'', ''Building quadtree'', ''Merging leaves'',
                     ''Simplifying''],
             cout = [], ending = Undefined NullDereference\<rparr>"
proof -
  have b: "build_matrix_rows pixel_image [0..<image_height pixel_image]
       (Matrix_new (image_width pixel_image) (image_height pixel_image))
     = Inr \<lparr>width = 1, height = 1, data = [0]\<rparr>"
    by (simp add: pixel_image_def Matrix_new_def Matrix_put_def)
  have s: "make_square \<lparr>width = 1, height = 1, data = [0 :: 8 word]\<rparr>
     = Inr \<lparr>width = 1, height = 1, data = [0]\<rparr>"
    by (simp add: make_square_def next_greater_power_of_2_values get_width_def get_height_def
        Matrix_new_def Matrix_at_def Matrix_put_def)
  have q: "QuadTree_new 64 \<lparr>width = 1, height = 1, data = [0]\<rparr> = Inr (Childless BLACK_TREE)"
    by (simp add: QuadTree_new_def get_width_def init.simps Matrix_at_def)
  have g: "simplify rand (Childless BLACK_TREE) = Some (Inl NullDereference)"
    by (simp add: simplify_def)
  have "main extract (\<lambda>name. Returns pixel_image) rand [''image.png''] =
       Some \<lparr>cerr = [''Reading image.png'', ''Needlessly building matrix'',
                     ''Making matrix square'', ''Building quadtree'', ''Merging leaves'',
                     ''Simplifying''],
             cout = [], ending = Undefined NullDereference\<rparr>"
    using b s q g by (simp add: main_def failed_def)
  with b s q g show ?thesis by simp
qed

section \<open>The striped grid\<close>

lemma stripes_at:
  "x < 64 \<Longrightarrow> y < 64 \<Longrightarrow> Matrix_at stripes x y = Inr (if even x then 255 else 0)"
  by (simp add: Matrix_at_def stripes_def)

lemma init_stripes_cell:
  assumes "x < 64" "y < 64"
  shows "init 1 stripes x y 1 = Inr (Childless (if even x then WHITE_TREE else BLACK_TREE))"
  using assms by (subst init.simps) (simp add: stripes_at)

lemma init_stripes:
  "even x \<Longrightarrow> x + 2 ^ Suc k \<le> 64 \<Longrightarrow> y + 2 ^ Suc k \<le> 64 \<Longrightarrow>
   init 1 stripes x y (2 ^ Suc k) = Inr (striped k)"
proof (induction k arbitrary: x y)
  case 0
  then have r: "x < 64" "x + 1 < 64" "y < 64" "y + 1 < 64" by simp_all
  have o: "odd (x + 1)" using 0(1) by simp
  have big: "\<not> (2::nat) ^ Suc 0 \<le> 1" and half: "(2::nat) ^ Suc 0 div 2 = 1" by simp_all
  have c: "init 1 stripes x y 1 = Inr (Childless WHITE_TREE)"
    "init 1 stripes (x + 1) y 1 = Inr (Childless BLACK_TREE)"
    "init 1 stripes x (y + 1) 1 = Inr (Childless WHITE_TREE)"
    "init 1 stripes (x + 1) (y + 1) 1 = Inr (Childless BLACK_TREE)"
    using r 0(1) o by (simp_all only: init_stripes_cell if_True if_False)
  show ?case
    by (subst init.simps)
      (simp only: big half if_False Let_def c sum.case striped.simps striped_cell_def)
next
  case (Suc k)
  have half: "(2::nat) ^ Suc (Suc k) div 2 = 2 ^ Suc k" by simp
  have p: "(1::nat) \<le> 2 ^ k" by simp
  have "(2::nat) ^ Suc (Suc k) = 4 * 2 ^ k" by simp
  with p have big: "\<not> (2::nat) ^ Suc (Suc k) \<le> 1" by linarith
  have e: "even (x + 2 ^ Suc k)" using Suc.prems(1) by simp
  have b: "x + 2 ^ Suc k \<le> 64" "y + 2 ^ Suc k \<le> 64"
    "x + 2 ^ Suc k + 2 ^ Suc k \<le> 64" "y + 2 ^ Suc k + 2 ^ Suc k \<le> 64"
    using Suc.prems(2,3) by simp_all
  have c: "init 1 stripes x y (2 ^ Suc k) = Inr (striped k)"
    "init 1 stripes (x + 2 ^ Suc k) y (2 ^ Suc k) = Inr (striped k)"
    "init 1 stripes x (y + 2 ^ Suc k) (2 ^ Suc k) = Inr (striped k)"
    "init 1 stripes (x + 2 ^ Suc k) (y + 2 ^ Suc k) (2 ^ Suc k) = Inr (striped k)"
    using Suc.IH Suc.prems(1) e b by blast+
  show ?case
    by (subst init.simps) (simp only: big half if_False Let_def c sum.case striped.simps)
qed

section \<open>Trees split down to a fixed level\<close>

lemma bottomedE:
  assumes "bottomed t"
  obtains ty a b c d where "t = Parent ty (Childless a) (Childless b) (Childless c) (Childless d)"
    "ty \<noteq> UNDEFINED_TREE" "leaf_type a" "leaf_type b" "leaf_type c" "leaf_type d"
  using assms by (elim bottomed.elims) auto

lemma rigid_SucE:
  assumes "rigid (Suc k) t"
  obtains c0 c1 c2 c3 where "t = Parent SPLIT_TREE c0 c1 c2 c3"
    "rigid k c0" "rigid k c1" "rigid k c2" "rigid k c3"
  using assms by (cases t) auto

lemma leaf_size: "leaf_type a \<Longrightarrow> encoded_size (Childless a) = Inr 2"
  by (auto simp: leaf_type_def)

lemma bottomed_size:
  assumes "bottomed t"
  shows "encoded_size t = Inr (if type t = SPLIT_TREE then 8 else 2)"
  using assms
proof (rule bottomedE)
  fix ty a b c d
  assume t: "t = Parent ty (Childless a) (Childless b) (Childless c) (Childless d)"
    and ty: "ty \<noteq> UNDEFINED_TREE"
    and l: "leaf_type a" "leaf_type b" "leaf_type c" "leaf_type d"
  from l have s: "encoded_size (Childless a) = Inr 2" "encoded_size (Childless b) = Inr 2"
    "encoded_size (Childless c) = Inr 2" "encoded_size (Childless d) = Inr 2"
    by (simp_all only: leaf_size)
  from ty show ?thesis
    unfolding t by (cases ty) (simp_all add: s del: encoded_size.simps(1))
qed

lemma bottomed_set_type:
  assumes "bottomed t" and "leaf_type new"
  shows "bottomed (set_type t [] new) \<and> type (set_type t [] new) = new"
  using assms(1)
proof (rule bottomedE)
  fix ty a b c d
  assume "t = Parent ty (Childless a) (Childless b) (Childless c) (Childless d)"
    and "leaf_type a" "leaf_type b" "leaf_type c" "leaf_type d"
  moreover from assms(2) have "new \<noteq> UNDEFINED_TREE" by (auto simp: leaf_type_def)
  ultimately show ?thesis by simp
qed

lemma rigid_size:
  "rigid k t \<Longrightarrow> \<exists>n. encoded_size t = Inr n \<and> 2 * 4 ^ k \<le> n \<and> n \<le> 8 * 4 ^ k"
proof (induction k arbitrary: t)
  case 0
  then show ?case by (simp add: bottomed_size)
next
  case (Suc k)
  from Suc.prems obtain c0 c1 c2 c3 where t: "t = Parent SPLIT_TREE c0 c1 c2 c3"
    and r: "rigid k c0" "rigid k c1" "rigid k c2" "rigid k c3"
    by (rule rigid_SucE)
  from Suc.IH[OF r(1)] obtain n0 where
    n0: "encoded_size c0 = Inr n0" "2 * 4 ^ k \<le> n0" "n0 \<le> 8 * 4 ^ k" by blast
  from Suc.IH[OF r(2)] obtain n1 where
    n1: "encoded_size c1 = Inr n1" "2 * 4 ^ k \<le> n1" "n1 \<le> 8 * 4 ^ k" by blast
  from Suc.IH[OF r(3)] obtain n2 where
    n2: "encoded_size c2 = Inr n2" "2 * 4 ^ k \<le> n2" "n2 \<le> 8 * 4 ^ k" by blast
  from Suc.IH[OF r(4)] obtain n3 where
    n3: "encoded_size c3 = Inr n3" "2 * 4 ^ k \<le> n3" "n3 \<le> 8 * 4 ^ k" by blast
  from n0 n1 n2 n3 t show ?case by simp
qed

lemma valid_path_Cons [simp]: "valid_path (i # p) = (i < 4 \<and> valid_path p)"
  by (simp add: valid_path_def)

lemma valid_path_Nil [simp]: "valid_path []"
  by (simp add: valid_path_def)

lemma rigid_lookup:
  "rigid k t \<Longrightarrow> length p = k \<Longrightarrow> valid_path p \<Longrightarrow> \<exists>b. lookup t p = Some b \<and> bottomed b"
proof (induction k arbitrary: t p)
  case 0
  then show ?case by simp
next
  case (Suc k)
  from Suc.prems(2) obtain i q where p: "p = i # q" "length q = k" by (cases p) auto
  with Suc.prems(3) have i: "i < 4" and q: "valid_path q" by simp_all
  from Suc.prems(1) obtain c0 c1 c2 c3 where t: "t = Parent SPLIT_TREE c0 c1 c2 c3"
    and r: "rigid k c0" "rigid k c1" "rigid k c2" "rigid k c3"
    by (rule rigid_SucE)
  from four_cases[OF i] r Suc.IH[OF _ p(2) q] show ?case
    unfolding p t by auto
qed

lemma rigid_set_type:
  "rigid k t \<Longrightarrow> length p = k \<Longrightarrow> valid_path p \<Longrightarrow> leaf_type new \<Longrightarrow>
   rigid k (set_type t p new) \<and>
   (\<exists>n. encoded_size (set_type t p new) = Inr n \<and> n + 6 \<le> 8 * 4 ^ k)"
proof (induction k arbitrary: t p)
  case 0
  from 0(1) have "bottomed t" by simp
  from bottomed_set_type[OF this 0(4)] have
    b: "bottomed (set_type t [] new)" and ty: "type (set_type t [] new) = new" by simp_all
  from 0(4) have "new \<noteq> SPLIT_TREE" by (rule leaf_type_not_split)
  with bottomed_size[OF b] ty b 0(2) show ?case by simp
next
  case (Suc k)
  from Suc.prems(2) obtain i q where p: "p = i # q" "length q = k" by (cases p) auto
  with Suc.prems(3) have i: "i < 4" and q: "valid_path q" by simp_all
  from Suc.prems(1) obtain c0 c1 c2 c3 where t: "t = Parent SPLIT_TREE c0 c1 c2 c3"
    and r: "rigid k c0" "rigid k c1" "rigid k c2" "rigid k c3"
    by (rule rigid_SucE)
  from rigid_size[OF r(1)] obtain n0 where
    n0: "encoded_size c0 = Inr n0" "n0 \<le> 8 * 4 ^ k" by blast
  from rigid_size[OF r(2)] obtain n1 where
    n1: "encoded_size c1 = Inr n1" "n1 \<le> 8 * 4 ^ k" by blast
  from rigid_size[OF r(3)] obtain n2 where
    n2: "encoded_size c2 = Inr n2" "n2 \<le> 8 * 4 ^ k" by blast
  from rigid_size[OF r(4)] obtain n3 where
    n3: "encoded_size c3 = Inr n3" "n3 \<le> 8 * 4 ^ k" by blast
  note n = n0 n1 n2 n3
  note ih = Suc.IH[OF _ p(2) q Suc.prems(4)]
  from four_cases[OF i] show ?case
  proof (elim disjE)
    assume "i = 0"
    from ih[OF r(1)] obtain m where "rigid k (set_type c0 q new)"
      "encoded_size (set_type c0 q new) = Inr m" "m + 6 \<le> 8 * 4 ^ k" by blast
    with \<open>i = 0\<close> r n show ?thesis unfolding p t by simp
  next
    assume "i = 1"
    from ih[OF r(2)] obtain m where "rigid k (set_type c1 q new)"
      "encoded_size (set_type c1 q new) = Inr m" "m + 6 \<le> 8 * 4 ^ k" by blast
    with \<open>i = 1\<close> r n show ?thesis unfolding p t by simp
  next
    assume "i = 2"
    from ih[OF r(3)] obtain m where "rigid k (set_type c2 q new)"
      "encoded_size (set_type c2 q new) = Inr m" "m + 6 \<le> 8 * 4 ^ k" by blast
    with \<open>i = 2\<close> r n show ?thesis unfolding p t by simp
  next
    assume "i = 3"
    from ih[OF r(4)] obtain m where "rigid k (set_type c3 q new)"
      "encoded_size (set_type c3 q new) = Inr m" "m + 6 \<le> 8 * 4 ^ k" by blast
    with \<open>i = 3\<close> r n show ?thesis unfolding p t by simp
  qed
qed

lemma lookup_append:
  "lookup t (p @ q) = (case lookup t p of None \<Rightarrow> None | Some n \<Rightarrow> lookup n q)"
  by (induction p arbitrary: t) (auto split: option.splits)

lemma merge_at_bottom:
  assumes "lookup root p = Some (Parent ty (Childless a) (Childless b) (Childless c) (Childless d))"
    and "leaf_type a" "leaf_type b" "leaf_type c" "leaf_type d" and "i < 4"
  shows "merge_with_sibblings root (p @ [i]) m =
           Inr (True, set_type root p
             (Type_of_int (cdiv (int_of_Type a + int_of_Type b + int_of_Type c + int_of_Type d) 4)))
         \<and> leaf_type (Type_of_int (cdiv (int_of_Type a + int_of_Type b + int_of_Type c + int_of_Type d) 4))"
proof -
  let ?mean = "cdiv (int_of_Type a + int_of_Type b + int_of_Type c + int_of_Type d) 4"
  have mean: "?mean = 0 \<or> ?mean = 1 \<or> ?mean = 2"
    using assms(2-5) by (intro mean_of_four) (auto simp: leaf_type_def)
  have ns: "a \<noteq> SPLIT_TREE" "b \<noteq> SPLIT_TREE" "c \<noteq> SPLIT_TREE" "d \<noteq> SPLIT_TREE"
    using assms(2-5) by (simp_all add: leaf_type_not_split)
  from four_cases[OF assms(6)] obtain e where
    leaf: "lookup root (p @ [i]) = Some (Childless e)" and e: "e \<noteq> SPLIT_TREE"
    using ns by (auto simp: lookup_append assms(1))
  have st: "sibbling_types [Childless a, Childless b, Childless c, Childless d] m 0 [] =
      Inr (Some [int_of_Type a, int_of_Type b, int_of_Type c, int_of_Type d])"
    using ns by simp
  have "merge_with_sibblings root (p @ [i]) m = Inr (True, set_type root p (Type_of_int ?mean))"
    unfolding merge_with_sibblings_def using mean
    by (simp add: leaf e assms(1) st Let_def del: sibbling_types.simps)
  with mean show ?thesis by (simp add: Type_of_int_leaf)
qed

lemma rigid_set_type_le:
  "rigid k t \<Longrightarrow> length p = k \<Longrightarrow> valid_path p \<Longrightarrow> leaf_type new \<Longrightarrow>
   \<exists>n n'. encoded_size t = Inr n \<and> encoded_size (set_type t p new) = Inr n' \<and> n' \<le> n"
proof (induction k arbitrary: t p)
  case 0
  from 0(1) have bt: "bottomed t" by simp
  from bottomed_set_type[OF this 0(4)] have
    b: "bottomed (set_type t [] new)" and ty: "type (set_type t [] new) = new" by simp_all
  from 0(4) have "new \<noteq> SPLIT_TREE" by (rule leaf_type_not_split)
  with bottomed_size[OF b] bottomed_size[OF bt] ty 0(2) show ?case by simp
next
  case (Suc k)
  from Suc.prems(2) obtain i q where p: "p = i # q" "length q = k" by (cases p) auto
  with Suc.prems(3) have i: "i < 4" and q: "valid_path q" by simp_all
  from Suc.prems(1) obtain c0 c1 c2 c3 where t: "t = Parent SPLIT_TREE c0 c1 c2 c3"
    and r: "rigid k c0" "rigid k c1" "rigid k c2" "rigid k c3"
    by (rule rigid_SucE)
  from rigid_size[OF r(1)] obtain n0 where n0: "encoded_size c0 = Inr n0" by blast
  from rigid_size[OF r(2)] obtain n1 where n1: "encoded_size c1 = Inr n1" by blast
  from rigid_size[OF r(3)] obtain n2 where n2: "encoded_size c2 = Inr n2" by blast
  from rigid_size[OF r(4)] obtain n3 where n3: "encoded_size c3 = Inr n3" by blast
  note n = n0 n1 n2 n3
  note ih = Suc.IH[OF _ p(2) q Suc.prems(4)]
  from four_cases[OF i] show ?case
  proof (elim disjE)
    assume "i = 0"
    from ih[OF r(1)] obtain m where
      "encoded_size (set_type c0 q new) = Inr m" "m \<le> n0" using n0 by auto
    with \<open>i = 0\<close> n show ?thesis unfolding p t by simp
  next
    assume "i = 1"
    from ih[OF r(2)] obtain m where
      "encoded_size (set_type c1 q new) = Inr m" "m \<le> n1" using n1 by auto
    with \<open>i = 1\<close> n show ?thesis unfolding p t by simp
  next
    assume "i = 2"
    from ih[OF r(3)] obtain m where
      "encoded_size (set_type c2 q new) = Inr m" "m \<le> n2" using n2 by auto
    with \<open>i = 2\<close> n show ?thesis unfolding p t by simp
  next
    assume "i = 3"
    from ih[OF r(4)] obtain m where
      "encoded_size (set_type c3 q new) = Inr m" "m \<le> n3" using n3 by auto
    with \<open>i = 3\<close> n show ?thesis unfolding p t by simp
  qed
qed

lemma rigid_merge_le:
  assumes "rigid k t" "length q = Suc k" "valid_path q"
  shows "\<exists>t' n n'. merge_with_sibblings t q m = Inr (True, t') \<and> rigid k t' \<and>
            encoded_size t = Inr n \<and> encoded_size t' = Inr n' \<and> n' \<le> n \<and> n' + 6 \<le> 8 * 4 ^ k"
proof -
  from assms(2) obtain p i where q: "q = p @ [i]" "length p = k"
    by (cases q rule: rev_cases) auto
  with assms(3) have i: "i < 4" and p: "valid_path p"
    by (simp_all add: valid_path_def)
  from rigid_lookup[OF assms(1) q(2) p] obtain bt where
    bt: "lookup t p = Some bt" "bottomed bt" by blast
  from bt(2) obtain ty a b c d where
    b: "bt = Parent ty (Childless a) (Childless b) (Childless c) (Childless d)"
    "leaf_type a" "leaf_type b" "leaf_type c" "leaf_type d"
    by (rule bottomedE)
  let ?new = "Type_of_int (cdiv (int_of_Type a + int_of_Type b + int_of_Type c + int_of_Type d) 4)"
  from merge_at_bottom[OF bt(1)[unfolded b(1)] b(2-5) i, of m]
  have m: "merge_with_sibblings t q m = Inr (True, set_type t p ?new)" and l: "leaf_type ?new"
    unfolding q(1) by simp_all
  from rigid_set_type[OF assms(1) q(2) p l] rigid_set_type_le[OF assms(1) q(2) p l] m
  show ?thesis by auto
qed

section \<open>The loop on the striped tree\<close>

lemma type_striped: "type (striped k) = SPLIT_TREE"
  by (cases k) (simp_all add: striped_cell_def)

lemma get_leaves_striped:
  "get_leaves (striped k) pre = Inr (map ((@) pre) (all_paths (Suc k)))"
proof (induction k arbitrary: pre)
  case 0
  show ?case by (simp add: striped_cell_def)
next
  case (Suc k)
  have "get_leaves_child (striped k) q = Inr (map ((@) q) (all_paths (Suc k)))" for q
    using Suc.IH[of q] by (simp add: type_striped del: all_paths.simps)
  then show ?case
    by (simp del: all_paths.simps(2) get_leaves_child.simps add: all_paths.simps(2)[of "Suc k"])
qed

lemma all_paths_valid: "p \<in> set (all_paths n) \<Longrightarrow> length p = n \<and> valid_path p"
  by (induction n arbitrary: p) auto

lemma all_paths_not_empty: "all_paths n \<noteq> []"
  by (induction n) auto

lemma rigid_striped: "rigid k (striped k)"
  by (induction k) (simp_all add: striped_cell_def leaf_type_def)

lemma size_striped: "encoded_size (striped k) = Inr (8 * 4 ^ k)"
  by (induction k) (simp_all add: striped_cell_def)

lemma deep_leaves_nth:
  "deep_leaves leaves \<Longrightarrow> length (leaves ! (k mod length leaves)) = 6 \<and>
     valid_path (leaves ! (k mod length leaves))"
  by (simp add: deep_leaves_def list_all_length)

lemma stuck_pass:
  assumes "deep_leaves leaves" and "stuck s"
  shows "\<exists>s'. simplify_body leaves rand s = Inr s' \<and> stuck s'
           \<and> maximum_detail_loss s' = maximum_detail_loss s
           \<and> encoded_size (tree s) = Inr (current_size s')
           \<and> tree_size (tree s') \<le> tree_size (tree s)"
proof -
  from assms(2) obtain n where r: "rigid 5 (tree s)" and l: "last_size s = 8192"
    and n: "encoded_size (tree s) = Inr n" "n + 6 \<le> 8192"
    by (auto simp: stuck_def)
  from rigid_size[OF r] n(1) have big: "2048 \<le> n" by simp
  have ne: "last_size s \<noteq> n" using l n(2) by simp
  let ?leaf = "leaves ! (rand (rand_calls s) mod length leaves)"
  from deep_leaves_nth[OF assms(1)] have "length ?leaf = Suc 5" "valid_path ?leaf"
    by simp_all
  from rigid_merge_le[OF r this, of "maximum_detail_loss s"] n(1) obtain t' n' where
    m: "merge_with_sibblings (tree s) ?leaf (maximum_detail_loss s) = Inr (True, t')"
    and t': "rigid 5 t'" "encoded_size t' = Inr n'" "n' \<le> n" "n' + 6 \<le> 8 * 4 ^ 5"
    by auto
  let ?s' = "\<lparr>tree = t', current_size = n, last_size = last_size s,
           maximum_detail_loss = maximum_detail_loss s, rand_calls = rand_calls s + 1\<rparr>"
  have "simplify_body leaves rand s = Inr ?s'"
    by (simp add: simplify_body_def n(1) ne Let_def m)
  moreover have "stuck ?s'"
    using t' big l by (simp add: stuck_def)
  moreover have "tree_size (tree ?s') \<le> tree_size (tree s)"
    using t' n(1) by (simp add: tree_size_def)
  ultimately show ?thesis using n(1) by auto
qed

lemma stuck_continues: "stuck s \<Longrightarrow> maximum_encoded_size < current_size s"
  by (simp add: stuck_def maximum_encoded_size_def)

lemma stuck_tree_size: "stuck s \<Longrightarrow> encoded_size (tree s) = Inr (tree_size (tree s))"
  by (auto simp: stuck_def tree_size_def)

lemma stuck_loop_never_returns:
  assumes "deep_leaves leaves"
  shows "stuck s \<Longrightarrow> simplify_loop leaves rand s = None"
proof -
  have "deep_leaves l \<longrightarrow> \<not> stuck s" if run: "simplify_loop l r s = Some y" for l r s y
  proof (rule simplify_loop.raw_induct
      [where P = "\<lambda>l r s y. deep_leaves l \<longrightarrow> \<not> stuck s", OF _ run])
    fix loop l r s and y :: "error + QuadTree"
    assume ih: "\<And>l r s y. loop l r s = Some y \<Longrightarrow> deep_leaves l \<longrightarrow> \<not> stuck s"
      and body: "(if l \<noteq> [] \<and> maximum_encoded_size < current_size s
                  then case simplify_body l r s of Inl e \<Rightarrow> Some (Inl e)
                       | Inr s' \<Rightarrow> loop l r s'
                  else Some (Inr (tree s))) = Some y"
    show "deep_leaves l \<longrightarrow> \<not> stuck s"
    proof (intro impI notI)
      assume d: "deep_leaves l" and st: "stuck s"
      from stuck_pass[OF d st, of r] obtain s' where
        b: "simplify_body l r s = Inr s'" and st': "stuck s'" by blast
      from d have "l \<noteq> []" by (simp add: deep_leaves_def)
      moreover from st have "maximum_encoded_size < current_size s"
        by (simp add: stuck_def maximum_encoded_size_def)
      ultimately have "loop l r s' = Some y" using body b by simp
      from ih[OF this] d st' show False by simp
    qed
  qed
  then show "stuck s \<Longrightarrow> simplify_loop leaves rand s = None"
    using assms by (cases "simplify_loop leaves rand s") auto
qed

lemma deep_leaves_striped: "deep_leaves (map ((@) []) (all_paths 6))"
  by (auto simp: deep_leaves_def all_paths_not_empty list_all_iff dest: all_paths_valid)

lemma first_pass:
  assumes "deep_leaves leaves"
  shows "\<exists>s'. simplify_body leaves rand striped_start = Inr s' \<and> stuck s'"
proof -
  let ?leaf = "leaves ! (rand 0 mod length leaves)"
  from deep_leaves_nth[OF assms] have "length ?leaf = Suc 5" "valid_path ?leaf"
    by simp_all
  from rigid_merge_le[OF rigid_striped this, of "Suc 0"] obtain t' n' where
    m: "merge_with_sibblings (striped 5) ?leaf (Suc 0) = Inr (True, t')"
    and t': "rigid 5 t'" "encoded_size t' = Inr n'" "n' + 6 \<le> 8 * 4 ^ 5"
    by blast
  have sz: "encoded_size (striped 5) = Inr 8192" by (simp add: size_striped)
  have "simplify_body leaves rand striped_start =
        Inr \<lparr>tree = t', current_size = 8192, last_size = 8192,
             maximum_detail_loss = 1, rand_calls = 1\<rparr>"
    by (simp add: simplify_body_def striped_start_def sz Let_def m del: striped.simps)
  moreover have "stuck \<lparr>tree = t', current_size = 8192, last_size = 8192,
             maximum_detail_loss = 1, rand_calls = 1\<rparr>"
    using t' by (simp add: stuck_def)
  ultimately show ?thesis by blast
qed

lemma deep_striped_leaves: "deep_leaves striped_leaves"
  using deep_leaves_striped by (simp add: striped_leaves_def)

lemma simplify_striped_enters_loop:
  "simplify rand (striped 5) = simplify_loop striped_leaves rand striped_start"
proof -
  have six: "Suc 5 = 6" by simp
  have g: "get_leaves (striped 5) [] = Inr striped_leaves"
    using get_leaves_striped[of 5 "[]"] unfolding six striped_leaves_def .
  have sz: "encoded_size (striped 5) = Inr 8192" by (simp add: size_striped)
  show ?thesis
    by (simp only: simplify_def g sz sum.case striped_start_def)
qed

lemma simplify_striped_never_returns: "simplify rand (striped 5) = None"
proof -
  from first_pass[OF deep_striped_leaves, of rand] obtain s' where
    b: "simplify_body striped_leaves rand striped_start = Inr s'" and st: "stuck s'" by blast
  have ne: "striped_leaves \<noteq> []" using deep_striped_leaves by (simp add: deep_leaves_def)
  have c: "maximum_encoded_size < current_size striped_start"
    by (simp add: striped_start_def maximum_encoded_size_def)
  have "simplify rand (striped 5) = simplify_loop striped_leaves rand striped_start"
    by (rule simplify_striped_enters_loop)
  also have "\<dots> = simplify_loop striped_leaves rand s'"
    using ne c by (subst simplify_loop.simps) (simp add: b)
  also have "\<dots> = None"
    using deep_striped_leaves st by (rule stuck_loop_never_returns)
  finally show ?thesis .
qed

lemma all_paths_first: "all_paths n ! 0 = replicate n 0"
proof (induction n)
  case 0
  show ?case by simp
next
  case (Suc n)
  have "all_paths (Suc n) ! 0 = map ((#) 0) (all_paths n) ! 0"
    using all_paths_not_empty[of n] by (simp add: nth_append)
  also have "\<dots> = 0 # all_paths n ! 0"
    using all_paths_not_empty[of n] by simp
  finally show ?case using Suc by simp
qed

lemma striped_leaves_first: "striped_leaves ! (0 mod length striped_leaves) = replicate 5 0 @ [0]"
proof -
  have "striped_leaves ! 0 = [] @ all_paths 6 ! 0"
    unfolding striped_leaves_def using all_paths_not_empty[of 6] by (intro nth_map) simp
  also have "\<dots> = replicate 6 0" by (simp only: all_paths_first append_Nil)
  also have "\<dots> = replicate 5 0 @ [0]" by (simp add: eval_nat_numeral)
  finally show ?thesis by simp
qed

lemma lookup_striped: "lookup (striped k) (replicate k 0) = Some striped_cell"
  by (induction k) simp_all

lemma lookup_dent:
  "lookup (set_type (striped k) (replicate k 0) ty) (replicate k 0) =
     Some (Parent ty (Childless WHITE_TREE) (Childless BLACK_TREE)
                     (Childless WHITE_TREE) (Childless BLACK_TREE))"
  by (induction k) (simp_all add: striped_cell_def)

lemma set_type_again: "set_type (set_type t p a) p b = set_type t p b"
  by (induction t p a rule: set_type.induct) auto

lemma size_dent:
  "encoded_size (set_type (striped k) (replicate k 0) GREY_TREE) = Inr (8 * 4 ^ k - 6)"
proof (induction k)
  case 0
  show ?case by (simp add: striped_cell_def)
next
  case (Suc k)
  have "(6::nat) \<le> 8 * 4 ^ k" using one_le_power[of "4::nat" k] by linarith
  with Suc show ?case by (simp add: size_striped)
qed

lemma striped_mean: "Type_of_int (cdiv (int_of_Type WHITE_TREE + int_of_Type BLACK_TREE
    + int_of_Type WHITE_TREE + int_of_Type BLACK_TREE) 4) = GREY_TREE"
  by (simp add: cdiv_def Type_of_int_def)

lemma merge_striped_first:
  "merge_with_sibblings (striped 5) (replicate 5 0 @ [0]) m = Inr (True, dented)"
  using merge_at_bottom[OF lookup_striped[of 5, unfolded striped_cell_def], of 0 m]
  by (simp only: striped_mean dented_def) (simp add: leaf_type_def)

lemma merge_dented_again:
  "merge_with_sibblings dented (replicate 5 0 @ [0]) m = Inr (True, dented)"
  using merge_at_bottom[OF lookup_dent[of 5 GREY_TREE, folded dented_def], of 0 m]
  by (simp only: striped_mean) (simp add: leaf_type_def dented_def set_type_again)

lemma size_dented: "encoded_size dented = Inr 8186"
  unfolding dented_def by (simp only: size_dent) simp

lemma first_pass_merges:
  "simplify_body striped_leaves (\<lambda>k. 0) striped_start =
   Inr \<lparr>tree = dented, current_size = 8192, last_size = 8192,
        maximum_detail_loss = 1, rand_calls = 1\<rparr>"
  using striped_leaves_first
  by (simp add: simplify_body_def striped_start_def size_striped merge_striped_first
      del: striped.simps replicate.simps)

lemma second_pass_idle:
  "simplify_body striped_leaves (\<lambda>k. 0)
     \<lparr>tree = dented, current_size = 8192, last_size = 8192,
      maximum_detail_loss = 1, rand_calls = 1\<rparr> =
   Inr \<lparr>tree = dented, current_size = 8186, last_size = 8192,
        maximum_detail_loss = 1, rand_calls = 2\<rparr>"
  using striped_leaves_first
  by (simp add: simplify_body_def size_dented merge_dented_again del: striped.simps replicate.simps)

lemma third_pass_keeps_detail_loss:
  "simplify_body striped_leaves (\<lambda>k. 0)
     \<lparr>tree = dented, current_size = 8186, last_size = 8192,
      maximum_detail_loss = 1, rand_calls = 2\<rparr> =
   Inr \<lparr>tree = dented, current_size = 8186, last_size = 8192,
        maximum_detail_loss = 1, rand_calls = 3\<rparr>"
  using striped_leaves_first
  by (simp add: simplify_body_def size_dented merge_dented_again del: striped.simps replicate.simps)

lemma merge_leaves_striped: "merge_leaves (striped k) = Inr (striped k)"
  by (induction k) (simp_all add: striped_cell_def sorted_unique_def type_striped)

lemma new_stripes: "QuadTree_new 1 stripes = Inr (striped 5)"
  using init_stripes[of 0 5 0] by (simp add: QuadTree_new_def get_width_def stripes_def)

lemma some_pass_is_idle:
  assumes "deep_leaves leaves"
  shows "stuck s \<Longrightarrow>
         \<exists>n s1 s2 s3. passes n leaves rand s = Inr s1
           \<and> maximum_encoded_size < current_size s1
           \<and> simplify_body leaves rand s1 = Inr s2
           \<and> encoded_size (tree s2) = encoded_size (tree s1)
           \<and> maximum_encoded_size < current_size s2
           \<and> simplify_body leaves rand s2 = Inr s3
           \<and> current_size s3 = current_size s2
           \<and> maximum_detail_loss s3 = maximum_detail_loss s2"
proof (induction "tree_size (tree s)" arbitrary: s rule: less_induct)
  case less
  from assms have ne: "leaves \<noteq> []" by (simp add: deep_leaves_def)
  from stuck_pass[OF assms less.prems, of rand] obtain s' where
    s': "simplify_body leaves rand s = Inr s'" "stuck s'"
    "encoded_size (tree s) = Inr (current_size s')"
    "tree_size (tree s') \<le> tree_size (tree s)" by blast
  show ?case
  proof (cases "tree_size (tree s') = tree_size (tree s)")
    case True
    from stuck_pass[OF assms s'(2), of rand] obtain s'' where
      s'': "simplify_body leaves rand s' = Inr s''"
      "maximum_detail_loss s'' = maximum_detail_loss s'"
      "encoded_size (tree s') = Inr (current_size s'')" by blast
    from True stuck_tree_size[OF less.prems] stuck_tree_size[OF s'(2)]
    have eq: "encoded_size (tree s') = encoded_size (tree s)" by simp
    with s'(3) s''(3) have "current_size s'' = current_size s'" by simp
    moreover have "passes 0 leaves rand s = Inr s" by simp
    ultimately show ?thesis
      using stuck_continues[OF less.prems] stuck_continues[OF s'(2)] s'(1) s''(1,2) eq
      by blast
  next
    case False
    with s'(4) have "tree_size (tree s') < tree_size (tree s)" by simp
    from less.hyps[OF this s'(2)] obtain n s1 s2 s3 where
      run: "passes n leaves rand s' = Inr s1"
      "maximum_encoded_size < current_size s1"
      "simplify_body leaves rand s1 = Inr s2"
      "encoded_size (tree s2) = encoded_size (tree s1)"
      "maximum_encoded_size < current_size s2"
      "simplify_body leaves rand s2 = Inr s3"
      "current_size s3 = current_size s2"
      "maximum_detail_loss s3 = maximum_detail_loss s2" by blast
    have "passes (Suc n) leaves rand s = Inr s1"
      using ne stuck_continues[OF less.prems] s'(1) run(1) by simp
    with run(2-) show ?thesis by blast
  qed
qed

lemma some_pass_is_idle_on_striped:
  "\<exists>n s1 s2 s3. passes n striped_leaves rand striped_start = Inr s1
           \<and> maximum_encoded_size < current_size s1
           \<and> simplify_body striped_leaves rand s1 = Inr s2
           \<and> encoded_size (tree s2) = encoded_size (tree s1)
           \<and> maximum_encoded_size < current_size s2
           \<and> simplify_body striped_leaves rand s2 = Inr s3
           \<and> current_size s3 = current_size s2
           \<and> maximum_detail_loss s3 = maximum_detail_loss s2"
proof -
  have d: "deep_leaves striped_leaves" by (rule deep_striped_leaves)
  then have ne: "striped_leaves \<noteq> []" by (simp add: deep_leaves_def)
  from first_pass[OF d, of rand] obtain s' where
    s': "simplify_body striped_leaves rand striped_start = Inr s'" "stuck s'"
    unfolding striped_start_def by blast
  from some_pass_is_idle[OF d s'(2), of rand] obtain n s1 s2 s3 where
    run: "passes n striped_leaves rand s' = Inr s1"
      "maximum_encoded_size < current_size s1"
      "simplify_body striped_leaves rand s1 = Inr s2"
      "encoded_size (tree s2) = encoded_size (tree s1)"
      "maximum_encoded_size < current_size s2"
      "simplify_body striped_leaves rand s2 = Inr s3"
      "current_size s3 = current_size s2"
      "maximum_detail_loss s3 = maximum_detail_loss s2" by blast
  have "maximum_encoded_size < current_size striped_start"
    by (simp add: striped_start_def maximum_encoded_size_def)
  then have "passes (Suc n) striped_leaves rand striped_start = Inr s1"
    using ne s'(1) run(1) by simp
  with run(2-) show ?thesis by blast
qed

text \<open>
  Claim C1 fails on the code. The striped grid is a 64 by 64 grid; with cell size 1 its
  tree is \<open>striped 5\<close>, of size 8192, which \<^verbatim>\<open>merge_leaves\<close> leaves as it is. On that
  tree \<^verbatim>\<open>simplify\<close> never returns and never throws, whatever \<^verbatim>\<open>rand()\<close> returns: the
  leaves listed before the loop are all of the sixth level, so only nodes of the fifth
  level are ever merged and the size never falls below 2048, while \<^verbatim>\<open>last_size\<close> keeps
  the first size, which the size never equals again after the first pass.
\<close>

theorem simplify_never_returns_on_striped_grid:
  "QuadTree_new 1 stripes = Inr (striped 5)
   \<and> merge_leaves (striped 5) = Inr (striped 5)
   \<and> encoded_size (striped 5) = Inr 8192
   \<and> simplify rand (striped 5) = None"
  using new_stripes merge_leaves_striped[of 5] size_striped[of 5]
    simplify_striped_never_returns[of rand]
  by simp

text \<open>
  Claim C2 fails on the code. \<^verbatim>\<open>simplify\<close> on \<open>striped 5\<close> enters its loop in the state
  \<open>striped_start\<close>. With \<^verbatim>\<open>rand()\<close> returning 0 each time, the first pass merges the
  parent of the first leaf and the size falls from 8192 to 8186. The second pass picks the
  same leaf and changes nothing: the tree after it is the tree before it. The third pass
  therefore finds the size that the second pass found, 8186, and does not increment
  \<^verbatim>\<open>maximum_detail_loss\<close>, which stays 1: \<^verbatim>\<open>last_size\<close> is still 8192. Whatever \<^verbatim>\<open>rand()\<close>
  returns, the run has such a pass: one that leaves the size as it was, followed by a pass
  that finds the same size and does not increment \<^verbatim>\<open>maximum_detail_loss\<close>.
\<close>

theorem detail_loss_not_incremented_after_idle_pass:
  "simplify rand (striped 5) = simplify_loop striped_leaves rand striped_start
   \<and> simplify_body striped_leaves (\<lambda>k. 0) striped_start =
      Inr \<lparr>tree = dented, current_size = 8192, last_size = 8192,
           maximum_detail_loss = 1, rand_calls = 1\<rparr>
   \<and> encoded_size dented = Inr 8186
   \<and> simplify_body striped_leaves (\<lambda>k. 0)
       \<lparr>tree = dented, current_size = 8192, last_size = 8192,
        maximum_detail_loss = 1, rand_calls = 1\<rparr> =
      Inr \<lparr>tree = dented, current_size = 8186, last_size = 8192,
           maximum_detail_loss = 1, rand_calls = 2\<rparr>
   \<and> simplify_body striped_leaves (\<lambda>k. 0)
       \<lparr>tree = dented, current_size = 8186, last_size = 8192,
        maximum_detail_loss = 1, rand_calls = 2\<rparr> =
      Inr \<lparr>tree = dented, current_size = 8186, last_size = 8192,
           maximum_detail_loss = 1, rand_calls = 3\<rparr>
   \<and> (\<exists>n s1 s2 s3. passes n striped_leaves rand striped_start = Inr s1
           \<and> maximum_encoded_size < current_size s1
           \<and> simplify_body striped_leaves rand s1 = Inr s2
           \<and> encoded_size (tree s2) = encoded_size (tree s1)
           \<and> maximum_encoded_size < current_size s2
           \<and> simplify_body striped_leaves rand s2 = Inr s3
           \<and> current_size s3 = current_size s2
           \<and> maximum_detail_loss s3 = maximum_detail_loss s2)"
  using simplify_striped_enters_loop[of rand] first_pass_merges size_dented second_pass_idle
    third_pass_keeps_detail_loss some_pass_is_idle_on_striped[of rand]
  by simp

end
